theory Spec2Isabelle
  imports Main "HOL-Library.Word"
begin

section \<open>HL-HDF: nodes, node lists and the write/update engine\<close>

text \<open>
  A shallow embedding of \<^verbatim>\<open>hlhdf_node.c\<close> and \<^verbatim>\<open>hlhdf_write.c\<close>.
  C pointers are optional addresses into typed stores, the HDF5 library is a parameter
  (a transition function on an abstract library state) whose calls are logged, and every
  read through a pointer that C leaves undefined is a \<open>fault\<close> value of the model.
\<close>

subsection \<open>Scalar types and enumerations\<close>

type_synonym hid_t = int
type_synonym herr_t = int
type_synonym hsize_t = "64 word"
type_synonym size_t = "64 word"
type_synonym byte = "8 word"
type_synonym addr = nat

datatype HL_Type = UNDEFINED_ID | ATTRIBUTE_ID | GROUP_ID | DATASET_ID | TYPE_ID | REFERENCE_ID

text \<open>
  The marks: the code names \<^verbatim>\<open>NMARK_ORIGINAL\<close>, \<^verbatim>\<open>NMARK_CREATED\<close> and \<^verbatim>\<open>NMARK_CHANGED\<close>;
  the fourth is the mark of a node selected for a fetch.
\<close>

datatype HL_NodeMark = NMARK_ORIGINAL | NMARK_CREATED | NMARK_CHANGED | NMARK_SELECT

datatype HL_DataType = DTYPE_UNDEFINED_ID | HL_SIMPLE | HL_ARRAY

text \<open>
  The enumerators of \<^verbatim>\<open>HL_FormatSpecifier\<close> are declared in \<^verbatim>\<open>hlhdf_types.h\<close>, which is
  not among the sources. The code below only tells the undefined format from the others,
  so every defined format is kept as its token.
\<close>

datatype HL_FormatSpecifier = HLHDF_UNDEFINED | HLHDF_FORMAT string

text \<open>
  \<^verbatim>\<open>HL_Compression\<close>: the selector is a C enum and is kept as its integer code, because
  \<^verbatim>\<open>createSimpleDataset\<close> stores the value of a boolean expression in it. The field is
  called \<^verbatim>\<open>type\<close> in C.
\<close>

record HL_Compression =
  ctype :: int
  level :: int
  szlib_mask :: int
  szlib_px_per_block :: int

text \<open>
  Modelled from the spec: the compound type descriptor (\<^verbatim>\<open>hlhdf_types.h\<close> and
  \<^verbatim>\<open>hlhdf_compound.c\<close> are not among the sources) is an ordered sequence of
  (field name, byte offset, element format, field dimensions).
\<close>

type_synonym HL_CompoundTypeDescription = "(string \<times> nat \<times> HL_FormatSpecifier \<times> hsize_t list) list"

text \<open>\<^verbatim>\<open>struct _HL_Node\<close> of \<^verbatim>\<open>hlhdf_node.c\<close>; a pointer field is \<open>None\<close> for \<^verbatim>\<open>NULL\<close>.\<close>

record HL_Node =
  type :: HL_Type
  name :: string
  ndims :: int
  dims :: "addr option"
  data :: "addr option"
  rawdata :: "addr option"
  format :: HL_FormatSpecifier
  typeId :: hid_t
  dSize :: size_t
  rdSize :: size_t
  dataType :: HL_DataType
  hdfId :: hid_t
  mark :: HL_NodeMark
  compoundDescription :: "addr option"
  compression :: "addr option"

subsection \<open>The storage engine and the memory\<close>

text \<open>
  One constructor per library call made by the two files, with the arguments the code
  passes. A buffer argument carries the bytes found at the pointer (\<open>None\<close> for
  \<^verbatim>\<open>NULL\<close>); a property list argument is \<open>None\<close> for \<^verbatim>\<open>H5P_DEFAULT\<close>.
  \<^verbatim>\<open>createHlHdfFile\<close>, \<^verbatim>\<open>openHlHdfFile\<close>, \<^verbatim>\<open>translateCharToDatatype\<close> and the two error
  reporting switches are functions of \<^verbatim>\<open>hlhdf.c\<close>, which is not among the sources: they
  are calls of the engine too.
\<close>

datatype h5call =
    CreateHlHdfFile string "addr option"
  | OpenHlHdfFile string string
  | TranslateCharToDatatype HL_FormatSpecifier
  | DisableErrorReporting
  | EnableErrorReporting
  | H5Gopen hid_t string
  | H5Gcreate hid_t string
  | H5Dopen hid_t string
  | H5Dcreate hid_t string hid_t hid_t "hid_t option"
  | H5Dwrite hid_t hid_t "byte list option"
  | H5Screate_SCALAR
  | H5Screate_simple int "hsize_t list option"
  | H5Pcreate_DATASET_CREATE
  | H5Pset_chunk hid_t int "hsize_t list option"
  | H5Pset_deflate hid_t int
  | H5Pset_szip hid_t int int
  | H5Acreate hid_t string hid_t hid_t
  | H5Awrite hid_t hid_t "byte list option"
  | H5Awrite_ref hid_t hid_t
  | H5Rcreate hid_t "byte list option"
  | H5Tcommit hid_t string hid_t
  | H5Tcommitted hid_t
  | H5Tcopy hid_t
  | H5Tcopy_STD_REF_OBJ
  | H5Fclose hid_t
  | H5Gclose hid_t
  | H5Dclose hid_t
  | H5Sclose hid_t
  | H5Aclose hid_t
  | H5Tclose hid_t
  | H5Pclose hid_t

text \<open>
  What the code is run against: the engine (any function from library state and call to
  result and new library state) and the integer codes of the two compression selectors
  the code compares with (\<^verbatim>\<open>hlhdf_types.h\<close> is not among the sources).
\<close>

record 'e env =
  engine :: "'e \<Rightarrow> h5call \<Rightarrow> int \<times> 'e"
  CT_ZLIB :: int
  CT_SZLIB :: int

text \<open>
  The state: one store per pointee type (\<^verbatim>\<open>unsigned char\<close> buffers, \<^verbatim>\<open>hsize_t\<close> arrays,
  compound descriptors, compression settings), the next address of the allocator, the
  state of the library and the log of the calls made so far, oldest first.
\<close>

record 'e world =
  bytes :: "addr \<rightharpoonup> byte list"
  hsizes :: "addr \<rightharpoonup> hsize_t list"
  descrs :: "addr \<rightharpoonup> HL_CompoundTypeDescription"
  comprs :: "addr \<Rightarrow> HL_Compression"
  nxt :: addr
  est :: 'e
  calls :: "h5call list"

datatype fault = NullDereference | OutOfBounds

definition h5 :: "'e env \<Rightarrow> h5call \<Rightarrow> 'e world \<Rightarrow> int \<times> 'e world" where
  "h5 env c w =
     (let (r, s) = engine env (est w) c
      in (r, w\<lparr>est := s, calls := calls w @ [c]\<rparr>))"

text \<open>
  \<^verbatim>\<open>malloc\<close> followed by the copy that fills the block. Allocation is taken to succeed and
  to return an address never handed out before; \<^verbatim>\<open>malloc(0)\<close> returns an empty block.
\<close>

definition malloc_bytes :: "byte list \<Rightarrow> 'e world \<Rightarrow> addr \<times> 'e world" where
  "malloc_bytes bs w = (nxt w, w\<lparr>bytes := (bytes w)(nxt w \<mapsto> bs), nxt := Suc (nxt w)\<rparr>)"

definition malloc_hsizes :: "hsize_t list \<Rightarrow> 'e world \<Rightarrow> addr \<times> 'e world" where
  "malloc_hsizes ds w = (nxt w, w\<lparr>hsizes := (hsizes w)(nxt w \<mapsto> ds), nxt := Suc (nxt w)\<rparr>)"

definition malloc_descr :: "HL_CompoundTypeDescription \<Rightarrow> 'e world \<Rightarrow> addr \<times> 'e world" where
  "malloc_descr d w = (nxt w, w\<lparr>descrs := (descrs w)(nxt w \<mapsto> d), nxt := Suc (nxt w)\<rparr>)"

text \<open>
  Modelled from the spec: the macro \<^verbatim>\<open>HLHDF_FREE\<close> (its header is not among the sources)
  releases a buffer that the node owns, here an \<^verbatim>\<open>hsize_t\<close> array; it does nothing for
  \<^verbatim>\<open>NULL\<close>.
\<close>

definition free_hsizes :: "addr option \<Rightarrow> 'e world \<Rightarrow> 'e world" where
  "free_hsizes p w = (case p of None \<Rightarrow> w | Some a \<Rightarrow> w\<lparr>hsizes := (hsizes w)(a := None)\<rparr>)"

text \<open>Reading \<^verbatim>\<open>p[i]\<close> from an \<^verbatim>\<open>hsize_t\<close> array.\<close>

definition read_hsize :: "'e world \<Rightarrow> addr option \<Rightarrow> nat \<Rightarrow> fault + hsize_t" where
  "read_hsize w p i =
     (case p of
        None \<Rightarrow> Inl NullDereference
      | Some a \<Rightarrow>
          (case hsizes w a of
             None \<Rightarrow> Inl OutOfBounds
           | Some ds \<Rightarrow> if i < length ds then Inr (ds ! i) else Inl OutOfBounds))"

text \<open>
  The source of a \<^verbatim>\<open>memcpy\<close> of \<open>n\<close> elements. Copying nothing reads nothing, also
  from \<^verbatim>\<open>NULL\<close>.
\<close>

definition memcpy_hsizes :: "'e world \<Rightarrow> addr option \<Rightarrow> nat \<Rightarrow> fault + hsize_t list" where
  "memcpy_hsizes w p n =
     (if n = 0 then Inr []
      else case p of
        None \<Rightarrow> Inl NullDereference
      | Some a \<Rightarrow>
          (case hsizes w a of
             None \<Rightarrow> Inl OutOfBounds
           | Some ds \<Rightarrow> if n \<le> length ds then Inr (take n ds) else Inl OutOfBounds))"

definition memcpy_bytes :: "'e world \<Rightarrow> addr option \<Rightarrow> nat \<Rightarrow> fault + byte list" where
  "memcpy_bytes w p n =
     (if n = 0 then Inr []
      else case p of
        None \<Rightarrow> Inl NullDereference
      | Some a \<Rightarrow>
          (case bytes w a of
             None \<Rightarrow> Inl OutOfBounds
           | Some bs \<Rightarrow> if n \<le> length bs then Inr (take n bs) else Inl OutOfBounds))"

subsection \<open>\<^verbatim>\<open>hlhdf_node.c\<close>\<close>

text \<open>
  \<^verbatim>\<open>newHL_Node\<close> for a name that is not \<^verbatim>\<open>NULL\<close>; the node and the copy of its name are
  allocated.
\<close>

definition newHL_Node :: "string \<Rightarrow> HL_Node" where
  "newHL_Node nm =
     \<lparr>type = UNDEFINED_ID, name = nm, ndims = 0, dims = None, data = None, rawdata = None,
      format = HLHDF_UNDEFINED, typeId = -1, dSize = 0, rdSize = 0,
      dataType = DTYPE_UNDEFINED_ID, hdfId = -1, mark = NMARK_CREATED,
      compoundDescription = None, compression = None\<rparr>"

definition setHL_NodeDimensions ::
  "HL_Node \<Rightarrow> int \<Rightarrow> addr option \<Rightarrow> 'e world \<Rightarrow> fault + (int \<times> HL_Node \<times> 'e world)" where
  "setHL_NodeDimensions node nd dp w =
     (if nd > 0 \<and> dp \<noteq> None then
        (case memcpy_hsizes w dp (nat nd) of
           Inl f \<Rightarrow> Inl f
         | Inr ds \<Rightarrow>
             (let (tmpdims, w1) = malloc_hsizes ds w;
                  w2 = free_hsizes (dims node) w1
              in Inr (1, node\<lparr>dims := Some tmpdims, ndims := nd\<rparr>, w2)))
      else Inr (1, node\<lparr>dims := None, ndims := nd\<rparr>, free_hsizes (dims node) w))"

definition getHL_NodeDimension :: "'e world \<Rightarrow> HL_Node \<Rightarrow> int \<Rightarrow> fault + hsize_t" where
  "getHL_NodeDimension w node index =
     (if index < 0 \<or> index \<ge> ndims node \<or> dims node = None then Inr 0
      else read_hsize w (dims node) (nat index))"

text \<open>The loop \<^verbatim>\<open>for (i = 0; i < node->ndims; i++) n *= node->dims[i]\<close>, over its indices.\<close>

fun mult_dims :: "'e world \<Rightarrow> addr option \<Rightarrow> nat list \<Rightarrow> hsize_t \<Rightarrow> fault + hsize_t" where
  "mult_dims w p [] n = Inr n"
| "mult_dims w p (i # is) n =
     (case read_hsize w p i of
        Inl f \<Rightarrow> Inl f
      | Inr d \<Rightarrow> mult_dims w p is (n * d))"

definition getHL_NodeNumberOfPoints :: "'e world \<Rightarrow> HL_Node \<Rightarrow> fault + hsize_t" where
  "getHL_NodeNumberOfPoints w node =
     (if ndims node = 0 then Inr 1
      else if ndims node > 0 \<and> dims node \<noteq> None
        then mult_dims w (dims node) [0 ..< nat (ndims node)] 1
      else Inr 0)"

text \<open>
  Modelled from the spec: \<^verbatim>\<open>copyHL_CompoundTypeDescription\<close> (\<^verbatim>\<open>hlhdf_compound.c\<close> is not
  among the sources) "deep-duplicates all fields, independent lifetime": a new descriptor
  with the same fields, and \<^verbatim>\<open>NULL\<close> for \<^verbatim>\<open>NULL\<close>.
\<close>

definition copyHL_CompoundTypeDescription ::
  "addr option \<Rightarrow> 'e world \<Rightarrow> fault + (addr option \<times> 'e world)" where
  "copyHL_CompoundTypeDescription p w =
     (case p of
        None \<Rightarrow> Inr (None, w)
      | Some a \<Rightarrow>
          (case descrs w a of
             None \<Rightarrow> Inl OutOfBounds
           | Some d \<Rightarrow> (let (b, w1) = malloc_descr d w in Inr (Some b, w1))))"

text \<open>\<^verbatim>\<open>p = malloc(n); memcpy(p, src, n)\<close> on \<^verbatim>\<open>unsigned char\<close> buffers.\<close>

definition malloc_memcpy :: "addr option \<Rightarrow> nat \<Rightarrow> 'e world \<Rightarrow> fault + (addr \<times> 'e world)" where
  "malloc_memcpy src n w =
     (case memcpy_bytes w src n of
        Inl f \<Rightarrow> Inl f
      | Inr bs \<Rightarrow> Inr (malloc_bytes bs w))"

text \<open>
  \<^verbatim>\<open>copyHL_Node\<close>, in the three blocks of its body. First the new node and its
  dimensions: \<^verbatim>\<open>setHL_NodeDimensions\<close> is called twice, around the assignments of
  \<^verbatim>\<open>type\<close>, \<^verbatim>\<open>dSize\<close> and \<^verbatim>\<open>rdSize\<close>; a status 0 of either call is the \<^verbatim>\<open>goto fail\<close>.
\<close>

definition copy_dimensions :: "HL_Node \<Rightarrow> 'e world \<Rightarrow> fault + (int \<times> HL_Node \<times> 'e world)" where
  "copy_dimensions node w =
     (case setHL_NodeDimensions (newHL_Node (name node)) (ndims node) (dims node) w of
        Inl f \<Rightarrow> Inl f
      | Inr (st1, retv, w1) \<Rightarrow>
          if st1 = 0 then Inr (0, retv, w1)
          else setHL_NodeDimensions
                 (retv\<lparr>type := type node, dSize := dSize node, rdSize := rdSize node\<rparr>)
                 (ndims node) (dims node) w1)"

text \<open>
  Then the buffers. The byte counts \<^verbatim>\<open>npts*retv->dSize\<close> and \<^verbatim>\<open>npts*retv->rdSize\<close> are
  products of 64-bit unsigned values.
\<close>

definition copy_buffers :: "HL_Node \<Rightarrow> HL_Node \<Rightarrow> 'e world \<Rightarrow> fault + (HL_Node \<times> 'e world)" where
  "copy_buffers node retv w =
     (case getHL_NodeNumberOfPoints w retv of
        Inl f \<Rightarrow> Inl f
      | Inr npts \<Rightarrow>
         (case malloc_memcpy (data node) (unat (npts * dSize retv)) w of
            Inl f \<Rightarrow> Inl f
          | Inr (d, w1) \<Rightarrow>
              if rawdata node \<noteq> None
              then (case malloc_memcpy (rawdata node) (unat (npts * rdSize retv)) w1 of
                      Inl f \<Rightarrow> Inl f
                    | Inr (r, w2) \<Rightarrow> Inr (retv\<lparr>data := Some d, rawdata := Some r\<rparr>, w2))
              else Inr (retv\<lparr>data := Some d, rdSize := 0, rawdata := None\<rparr>, w1)))"

text \<open>
  Then the format, the type handle (copied by the engine when the original has one), the
  data type, the storage handle, which is set to -1, the mark and the compound
  descriptor. The \<^verbatim>\<open>compression\<close> field is not assigned: the copy keeps the \<^verbatim>\<open>NULL\<close>
  that \<^verbatim>\<open>newHL_Node\<close> gave it.
\<close>

definition copy_handles ::
  "'e env \<Rightarrow> HL_Node \<Rightarrow> HL_Node \<Rightarrow> 'e world \<Rightarrow> fault + (HL_Node \<times> 'e world)" where
  "copy_handles env node retv w =
     (let (t, w1) = (if typeId node \<ge> 0 then h5 env (H5Tcopy (typeId node)) w
                     else (typeId retv, w))
      in case copyHL_CompoundTypeDescription (compoundDescription node) w1 of
           Inl f \<Rightarrow> Inl f
         | Inr (cd, w2) \<Rightarrow>
             Inr (retv\<lparr>format := format node, typeId := t, dataType := dataType node,
                        hdfId := -1, mark := mark node, compoundDescription := cd\<rparr>, w2))"

definition copyHL_Node ::
  "'e env \<Rightarrow> HL_Node option \<Rightarrow> 'e world \<Rightarrow> fault + (HL_Node option \<times> 'e world)" where
  "copyHL_Node env nodep w =
     (case nodep of
        None \<Rightarrow> Inr (None, w)
      | Some node \<Rightarrow>
         (case copy_dimensions node w of
            Inl f \<Rightarrow> Inl f
          | Inr (st, retv, w1) \<Rightarrow>
              if st = 0 then Inr (Some retv, w1)
              else
               (case copy_buffers node retv w1 of
                  Inl f \<Rightarrow> Inl f
                | Inr (retv2, w2) \<Rightarrow>
                   (case copy_handles env node retv2 w2 of
                      Inl f \<Rightarrow> Inl f
                    | Inr (retv3, w3) \<Rightarrow> Inr (Some retv3, w3)))))"

subsection \<open>What a pointer holds\<close>

definition buf_bytes :: "'e world \<Rightarrow> addr option \<Rightarrow> byte list option" where
  "buf_bytes w p = (case p of None \<Rightarrow> None | Some a \<Rightarrow> bytes w a)"

definition buf_hsizes :: "'e world \<Rightarrow> addr option \<Rightarrow> hsize_t list option" where
  "buf_hsizes w p = (case p of None \<Rightarrow> None | Some a \<Rightarrow> hsizes w a)"

definition buf_descr :: "'e world \<Rightarrow> addr option \<Rightarrow> HL_CompoundTypeDescription option" where
  "buf_descr w p = (case p of None \<Rightarrow> None | Some a \<Rightarrow> descrs w a)"

text \<open>The bytes of a buffer, none for an absent one.\<close>

definition contents :: "byte list option \<Rightarrow> byte list" where
  "contents b = (case b of None \<Rightarrow> [] | Some bs \<Rightarrow> bs)"

text \<open>
  The dimensions array of a node holds exactly \<^verbatim>\<open>ndims\<close> extents when it is present, which
  is how \<^verbatim>\<open>setHL_NodeDimensions\<close>, the only writer of the two fields, leaves them.
\<close>

definition dims_allocated :: "'e world \<Rightarrow> HL_Node \<Rightarrow> bool" where
  "dims_allocated w node =
     (case dims node of
        None \<Rightarrow> True
      | Some a \<Rightarrow>
          (case hsizes w a of
             None \<Rightarrow> False
           | Some ds \<Rightarrow> 0 < ndims node \<and> int (length ds) = ndims node))"

subsection \<open>\<^verbatim>\<open>hlhdf_write.c\<close>: private functions\<close>

text \<open>
  Modelled from the spec: the macros \<^verbatim>\<open>HL_H5F_CLOSE\<close>, \<^verbatim>\<open>HL_H5G_CLOSE\<close>, ... of
  \<^verbatim>\<open>hlhdf_defines_private.h\<close> (not among the sources), the "manual close macros" on "raw
  integer handles": the handle is closed when it is not negative.
\<close>

definition HL_H5F_CLOSE :: "'e env \<Rightarrow> hid_t \<Rightarrow> 'e world \<Rightarrow> 'e world" where
  "HL_H5F_CLOSE env x w = (if x \<ge> 0 then snd (h5 env (H5Fclose x) w) else w)"

definition HL_H5G_CLOSE :: "'e env \<Rightarrow> hid_t \<Rightarrow> 'e world \<Rightarrow> 'e world" where
  "HL_H5G_CLOSE env x w = (if x \<ge> 0 then snd (h5 env (H5Gclose x) w) else w)"

definition HL_H5D_CLOSE :: "'e env \<Rightarrow> hid_t \<Rightarrow> 'e world \<Rightarrow> 'e world" where
  "HL_H5D_CLOSE env x w = (if x \<ge> 0 then snd (h5 env (H5Dclose x) w) else w)"

definition HL_H5S_CLOSE :: "'e env \<Rightarrow> hid_t \<Rightarrow> 'e world \<Rightarrow> 'e world" where
  "HL_H5S_CLOSE env x w = (if x \<ge> 0 then snd (h5 env (H5Sclose x) w) else w)"

definition HL_H5A_CLOSE :: "'e env \<Rightarrow> hid_t \<Rightarrow> 'e world \<Rightarrow> 'e world" where
  "HL_H5A_CLOSE env x w = (if x \<ge> 0 then snd (h5 env (H5Aclose x) w) else w)"

definition HL_H5T_CLOSE :: "'e env \<Rightarrow> hid_t \<Rightarrow> 'e world \<Rightarrow> 'e world" where
  "HL_H5T_CLOSE env x w = (if x \<ge> 0 then snd (h5 env (H5Tclose x) w) else w)"

definition HL_H5P_CLOSE :: "'e env \<Rightarrow> hid_t \<Rightarrow> 'e world \<Rightarrow> 'e world" where
  "HL_H5P_CLOSE env x w = (if x \<ge> 0 then snd (h5 env (H5Pclose x) w) else w)"

definition commitType :: "'e env \<Rightarrow> hid_t \<Rightarrow> string \<Rightarrow> hid_t \<Rightarrow> 'e world \<Rightarrow> herr_t \<times> 'e world" where
  "commitType env loc_id nm type_id w = h5 env (H5Tcommit loc_id nm type_id) w"

text \<open>
  \<^verbatim>\<open>createReference\<close>: the label \<^verbatim>\<open>fail\<close> closes the three handles and returns the
  status. The reference written is the one the preceding \<^verbatim>\<open>H5Rcreate\<close> made.
\<close>

definition createReference_fail ::
  "'e env \<Rightarrow> hid_t \<Rightarrow> hid_t \<Rightarrow> hid_t \<Rightarrow> herr_t \<Rightarrow> 'e world \<Rightarrow> herr_t \<times> 'e world" where
  "createReference_fail env aid attr_id attr_type status w =
     (status, HL_H5T_CLOSE env attr_type (HL_H5A_CLOSE env attr_id (HL_H5S_CLOSE env aid w)))"

definition createReference ::
  "'e env \<Rightarrow> hid_t \<Rightarrow> hid_t \<Rightarrow> string \<Rightarrow> byte list option \<Rightarrow> 'e world \<Rightarrow> herr_t \<times> 'e world" where
  "createReference env loc_id file_id nm targetname w =
     (let (aid, w1) = h5 env H5Screate_SCALAR w in
      if aid < 0 then createReference_fail env aid (-1) (-1) (-1) w1
      else
       (let (attr_type, w2) = h5 env H5Tcopy_STD_REF_OBJ w1 in
        if attr_type < 0 then createReference_fail env aid (-1) attr_type (-1) w2
        else
         (let (attr_id, w3) = h5 env (H5Acreate loc_id nm attr_type aid) w2 in
          if attr_id < 0 then createReference_fail env aid attr_id attr_type (-1) w3
          else
           (let (r, w4) = h5 env (H5Rcreate file_id targetname) w3 in
            if r < 0 then createReference_fail env aid attr_id attr_type (-1) w4
            else
             (let (r', w5) = h5 env (H5Awrite_ref attr_id attr_type) w4 in
              if r' < 0 then createReference_fail env aid attr_id attr_type (-1) w5
              else createReference_fail env aid attr_id attr_type 0 w5)))))"

definition attribute_fail ::
  "'e env \<Rightarrow> hid_t \<Rightarrow> hid_t \<Rightarrow> herr_t \<Rightarrow> 'e world \<Rightarrow> herr_t \<times> 'e world" where
  "attribute_fail env space attr_id status w =
     (status, HL_H5A_CLOSE env attr_id (HL_H5S_CLOSE env space w))"

definition writeScalarDataAttribute ::
  "'e env \<Rightarrow> hid_t \<Rightarrow> hid_t \<Rightarrow> string \<Rightarrow> byte list option \<Rightarrow> 'e world \<Rightarrow> herr_t \<times> 'e world" where
  "writeScalarDataAttribute env loc_id type_id nm buf w =
     (let (aid, w1) = h5 env H5Screate_SCALAR w in
      if aid < 0 then attribute_fail env aid (-1) (-1) w1
      else
       (let (attr_id, w2) = h5 env (H5Acreate loc_id nm type_id aid) w1 in
        if attr_id < 0 then attribute_fail env aid attr_id (-1) w2
        else
         (let (r, w3) = h5 env (H5Awrite attr_id type_id buf) w2 in
          if r < 0 then attribute_fail env aid attr_id (-1) w3
          else attribute_fail env aid attr_id 0 w3)))"

definition writeSimpleDataAttribute ::
  "'e env \<Rightarrow> hid_t \<Rightarrow> hid_t \<Rightarrow> string \<Rightarrow> int \<Rightarrow> hsize_t list option \<Rightarrow> byte list option \<Rightarrow>
   'e world \<Rightarrow> herr_t \<times> 'e world" where
  "writeSimpleDataAttribute env loc_id type_id nm nd dv buf w =
     (let (dataspace, w1) = h5 env (H5Screate_simple nd dv) w in
      if dataspace < 0 then attribute_fail env dataspace (-1) (-1) w1
      else
       (let (attr_id, w2) = h5 env (H5Acreate loc_id nm type_id dataspace) w1 in
        if attr_id < 0 then attribute_fail env dataspace attr_id (-1) w2
        else
         (let (r, w3) = h5 env (H5Awrite attr_id type_id buf) w2 in
          if r < 0 then attribute_fail env dataspace attr_id (-1) w3
          else attribute_fail env dataspace attr_id 0 w3)))"

text \<open>
  The test of \<^verbatim>\<open>createSimpleDataset\<close> on a non-null \<^verbatim>\<open>compress\<close>, as the C reads:
  \<^verbatim>\<open>compress->type == CT_SZLIB || (compress->type = CT_ZLIB && (compress->level > 0 || compress->level <= 9))\<close>.
  The right operand of \<^verbatim>\<open>||\<close> is an assignment: when the selector is not \<^verbatim>\<open>CT_SZLIB\<close>, the
  value of the \<^verbatim>\<open>&&\<close> (1 or 0) is stored in \<^verbatim>\<open>compress->type\<close>, and is the value of the test.
\<close>

definition compression_test :: "'e env \<Rightarrow> addr \<Rightarrow> 'e world \<Rightarrow> bool \<times> 'e world" where
  "compression_test env a w =
     (let c = comprs w a in
      if ctype c = CT_SZLIB env then (True, w)
      else
       (let v = (if CT_ZLIB env \<noteq> 0 \<and> (level c > 0 \<or> level c \<le> 9) then 1 else 0)
        in (v \<noteq> 0, w\<lparr>comprs := (comprs w)(a := c\<lparr>ctype := v\<rparr>)\<rparr>)))"

text \<open>
  The end of \<^verbatim>\<open>createSimpleDataset\<close> once the dataset exists: the data is written when
  there is some, and the label \<^verbatim>\<open>done\<close> closes the dataspace and the property list. The
  dataset handle is returned whether \<^verbatim>\<open>H5Dwrite\<close> succeeded or not.
\<close>

definition createSimpleDataset_done ::
  "'e env \<Rightarrow> hid_t \<Rightarrow> hid_t \<Rightarrow> hid_t \<Rightarrow> 'e world \<Rightarrow> hid_t \<times> 'e world" where
  "createSimpleDataset_done env dataspace props dataset w =
     (dataset, HL_H5P_CLOSE env props (HL_H5S_CLOSE env dataspace w))"

definition createSimpleDataset_write ::
  "'e env \<Rightarrow> hid_t \<Rightarrow> hid_t \<Rightarrow> hid_t \<Rightarrow> hid_t \<Rightarrow> byte list option \<Rightarrow> 'e world \<Rightarrow> hid_t \<times> 'e world" where
  "createSimpleDataset_write env dataspace props dataset type_id buf w =
     (if buf \<noteq> None
      then createSimpleDataset_done env dataspace props dataset
             (snd (h5 env (H5Dwrite dataset type_id buf) w))
      else createSimpleDataset_done env dataspace props dataset w)"

definition createSimpleDataset_plain ::
  "'e env \<Rightarrow> hid_t \<Rightarrow> hid_t \<Rightarrow> string \<Rightarrow> hid_t \<Rightarrow> byte list option \<Rightarrow> 'e world \<Rightarrow> hid_t \<times> 'e world" where
  "createSimpleDataset_plain env loc_id type_id nm dataspace buf w =
     (let (dataset, w1) = h5 env (H5Dcreate loc_id nm type_id dataspace None) w in
      if dataset < 0 then createSimpleDataset_done env dataspace (-1) dataset w1
      else createSimpleDataset_write env dataspace (-1) dataset type_id buf w1)"

definition createSimpleDataset_compressed ::
  "'e env \<Rightarrow> hid_t \<Rightarrow> hid_t \<Rightarrow> string \<Rightarrow> int \<Rightarrow> hsize_t list option \<Rightarrow> hid_t \<Rightarrow>
   byte list option \<Rightarrow> addr \<Rightarrow> 'e world \<Rightarrow> hid_t \<times> 'e world" where
  "createSimpleDataset_compressed env loc_id type_id nm nd dv dataspace buf a w =
     (let (props, w1) = h5 env H5Pcreate_DATASET_CREATE w in
      if props < 0 then createSimpleDataset_done env dataspace props (-1) w1
      else
       (let (r, w2) = h5 env (H5Pset_chunk props nd dv) w1 in
        if r < 0 then createSimpleDataset_done env dataspace props (-1) w2
        else
         (let (r', w3) =
                (if ctype (comprs w2 a) = CT_ZLIB env
                 then h5 env (H5Pset_deflate props (level (comprs w2 a))) w2
                 else h5 env (H5Pset_szip props (szlib_mask (comprs w2 a))
                                (szlib_px_per_block (comprs w2 a))) w2) in
          if r' < 0 then createSimpleDataset_done env dataspace props (-1) w3
          else
           (let (dataset, w4) = h5 env (H5Dcreate loc_id nm type_id dataspace (Some props)) w3 in
            if dataset < 0 then createSimpleDataset_done env dataspace props dataset w4
            else createSimpleDataset_write env dataspace props dataset type_id buf w4))))"

definition createSimpleDataset ::
  "'e env \<Rightarrow> hid_t \<Rightarrow> hid_t \<Rightarrow> string \<Rightarrow> int \<Rightarrow> hsize_t list option \<Rightarrow> byte list option \<Rightarrow>
   addr option \<Rightarrow> 'e world \<Rightarrow> hid_t \<times> 'e world" where
  "createSimpleDataset env loc_id type_id nm nd dv buf compress w =
     (let (dataspace, w1) = h5 env (H5Screate_simple nd dv) w in
      if dataspace < 0 then createSimpleDataset_done env dataspace (-1) (-1) w1
      else
       (case compress of
          None \<Rightarrow> createSimpleDataset_plain env loc_id type_id nm dataspace buf w1
        | Some a \<Rightarrow>
           (let (t, w2) = compression_test env a w1 in
            if t then createSimpleDataset_compressed env loc_id type_id nm nd dv dataspace buf a w2
            else createSimpleDataset_plain env loc_id type_id nm dataspace buf w2)))"

text \<open>
  \<^verbatim>\<open>tmpLocId\<close>: the root group for an empty parent name, \<^verbatim>\<open>parentNode->hdfId\<close> otherwise
  (a fault when \<^verbatim>\<open>parentNode\<close> is \<^verbatim>\<open>NULL\<close>).
\<close>

definition tmpLocId :: "hid_t \<Rightarrow> HL_Node option \<Rightarrow> string \<Rightarrow> fault + hid_t" where
  "tmpLocId rootGrp parentNode parentName =
     (if parentName = '''' then Inr rootGrp
      else case parentNode of None \<Rightarrow> Inl NullDereference | Some p \<Rightarrow> Inr (hdfId p))"

text \<open>
  \<^verbatim>\<open>if (strcmp(childNode->format, DATAFORMAT_UNDEFINED) != 0 && childNode->typeId < 0)
  childNode->typeId = translateCharToDatatype(childNode->format);\<close>
\<close>

definition resolve_typeId :: "'e env \<Rightarrow> HL_Node \<Rightarrow> 'e world \<Rightarrow> HL_Node \<times> 'e world" where
  "resolve_typeId env childNode w =
     (if format childNode \<noteq> HLHDF_UNDEFINED \<and> typeId childNode < 0
      then (let (t, w1) = h5 env (TranslateCharToDatatype (format childNode)) w
            in (childNode\<lparr>typeId := t\<rparr>, w1))
      else (childNode, w))"

text \<open>
  The two attribute writers share the choice between the scalar and the array form.
  The names \<^verbatim>\<open>parentName\<close> and \<^verbatim>\<open>childName\<close> are arrays of the callers and never
  \<^verbatim>\<open>NULL\<close>, so the first check of each function below has no branch here.
\<close>

definition write_attribute_data ::
  "'e env \<Rightarrow> hid_t \<Rightarrow> HL_Node \<Rightarrow> string \<Rightarrow> 'e world \<Rightarrow> herr_t \<times> 'e world" where
  "write_attribute_data env loc_id childNode childName w =
     (if ndims childNode = 0
      then writeScalarDataAttribute env loc_id (typeId childNode) childName
             (buf_bytes w (data childNode)) w
      else writeSimpleDataAttribute env loc_id (typeId childNode) childName (ndims childNode)
             (buf_hsizes w (dims childNode)) (buf_bytes w (data childNode)) w)"

definition doWriteHdf5Attribute ::
  "'e env \<Rightarrow> hid_t \<Rightarrow> HL_Node option \<Rightarrow> string \<Rightarrow> HL_Node \<Rightarrow> string \<Rightarrow> 'e world \<Rightarrow>
   fault + (int \<times> HL_Node \<times> 'e world)" where
  "doWriteHdf5Attribute env rootGrp parentNode parentName childNode childName w =
     (case tmpLocId rootGrp parentNode parentName of
        Inl f \<Rightarrow> Inl f
      | Inr loc \<Rightarrow>
         (let (childNode1, w1) = resolve_typeId env childNode w in
          if typeId childNode1 < 0 then Inr (0, childNode1, w1)
          else
           (let (r, w2) = write_attribute_data env loc childNode1 childName w1 in
            if r < 0 then Inr (0, childNode1, w2) else Inr (1, childNode1, w2))))"

definition doWriteHdf5Group ::
  "'e env \<Rightarrow> hid_t \<Rightarrow> HL_Node option \<Rightarrow> string \<Rightarrow> HL_Node \<Rightarrow> string \<Rightarrow> 'e world \<Rightarrow>
   fault + (int \<times> HL_Node \<times> 'e world)" where
  "doWriteHdf5Group env rootGrp parentNode parentName childNode childName w =
     (case tmpLocId rootGrp parentNode parentName of
        Inl f \<Rightarrow> Inl f
      | Inr loc \<Rightarrow>
         (let w1 = HL_H5G_CLOSE env (hdfId childNode) w;
              (g, w2) = h5 env (H5Gcreate loc childName) w1;
              childNode1 = childNode\<lparr>hdfId := g\<rparr>
          in if g < 0 then Inr (0, childNode1, w2) else Inr (1, childNode1, w2)))"

definition doWriteHdf5Dataset ::
  "'e env \<Rightarrow> hid_t \<Rightarrow> HL_Node option \<Rightarrow> string \<Rightarrow> HL_Node \<Rightarrow> string \<Rightarrow> addr option \<Rightarrow>
   'e world \<Rightarrow> fault + (int \<times> HL_Node \<times> 'e world)" where
  "doWriteHdf5Dataset env rootGrp parentNode parentName childNode childName compression_arg w =
     (case tmpLocId rootGrp parentNode parentName of
        Inl f \<Rightarrow> Inl f
      | Inr loc \<Rightarrow>
         (let (childNode1, w1) = resolve_typeId env childNode w in
          if typeId childNode1 < 0 then Inr (0, childNode1, w1)
          else
           (let w2 = HL_H5D_CLOSE env (hdfId childNode1) w1;
                (d, w3) = createSimpleDataset env loc (typeId childNode1) childName
                            (ndims childNode1) (buf_hsizes w2 (dims childNode1))
                            (buf_bytes w2 (data childNode1)) compression_arg w2;
                childNode2 = childNode1\<lparr>hdfId := d\<rparr>
            in if d < 0 then Inr (0, childNode2, w3) else Inr (1, childNode2, w3))))"

text \<open>
  \<^verbatim>\<open>doWriteHdf5Datatype\<close>: after a successful commit the status of \<^verbatim>\<open>H5Tcommitted\<close> is
  asked for, and an error is logged when it is not positive; the function then returns 1.
\<close>

definition doWriteHdf5Datatype ::
  "'e env \<Rightarrow> hid_t \<Rightarrow> HL_Node option \<Rightarrow> string \<Rightarrow> HL_Node \<Rightarrow> string \<Rightarrow> 'e world \<Rightarrow>
   int \<times> HL_Node \<times> 'e world" where
  "doWriteHdf5Datatype env loc_id parentNode parentName childNode childName w =
     (if loc_id < 0 then (0, childNode, w)
      else
       (let (r, w1) = commitType env loc_id (name childNode) (hdfId childNode) w in
        if r < 0 then (0, childNode, w1)
        else
         (let (c, w2) = h5 env (H5Tcommitted (hdfId childNode)) w1
          in (1, childNode, w2))))"

definition doWriteHdf5Reference ::
  "'e env \<Rightarrow> hid_t \<Rightarrow> hid_t \<Rightarrow> HL_Node option \<Rightarrow> string \<Rightarrow> HL_Node \<Rightarrow> string \<Rightarrow> 'e world \<Rightarrow>
   fault + (int \<times> HL_Node \<times> 'e world)" where
  "doWriteHdf5Reference env rootGrp file_id parentNode parentName childNode childName w =
     (case tmpLocId rootGrp parentNode parentName of
        Inl f \<Rightarrow> Inl f
      | Inr loc \<Rightarrow>
         (let (r, w1) = createReference env loc file_id childName (buf_bytes w (data childNode)) w
          in if r < 0 then Inr (0, childNode, w1) else Inr (1, childNode, w1)))"

text \<open>
  \<^verbatim>\<open>doAppendHdf5Attribute\<close>. The label \<^verbatim>\<open>fail\<close> closes \<^verbatim>\<open>loc_id\<close> as a group or as a
  dataset, according to \<^verbatim>\<open>parentType\<close>.
\<close>

definition doAppendHdf5Attribute_fail ::
  "'e env \<Rightarrow> HL_Type \<Rightarrow> hid_t \<Rightarrow> 'e world \<Rightarrow> 'e world" where
  "doAppendHdf5Attribute_fail env parentType loc_id w =
     (if parentType = GROUP_ID then HL_H5G_CLOSE env loc_id w
      else if parentType = DATASET_ID then HL_H5D_CLOSE env loc_id w
      else w)"

definition doAppendHdf5Attribute_open ::
  "'e env \<Rightarrow> hid_t \<Rightarrow> string \<Rightarrow> 'e world \<Rightarrow> hid_t \<times> HL_Type \<times> 'e world" where
  "doAppendHdf5Attribute_open env file_id parentName w =
     (if parentName = ''''
      then (let (loc_id, w1) = h5 env (H5Gopen file_id ''/'') w
            in if loc_id < 0 then (loc_id, UNDEFINED_ID, w1) else (loc_id, GROUP_ID, w1))
      else
       (let (u, w1) = h5 env DisableErrorReporting w;
            (loc_id, w2) = h5 env (H5Gopen file_id parentName) w1;
            (loc_id', parentType, w3) =
               (if loc_id < 0
                then (let (d, w') = h5 env (H5Dopen file_id parentName) w2
                      in if d \<ge> 0 then (d, DATASET_ID, w') else (d, UNDEFINED_ID, w'))
                else (loc_id, GROUP_ID, w2));
            (u', w4) = h5 env EnableErrorReporting w3
        in (loc_id', parentType, w4)))"

definition doAppendHdf5Attribute ::
  "'e env \<Rightarrow> hid_t \<Rightarrow> HL_Node option \<Rightarrow> string \<Rightarrow> HL_Node \<Rightarrow> string \<Rightarrow> 'e world \<Rightarrow>
   int \<times> HL_Node \<times> 'e world" where
  "doAppendHdf5Attribute env file_id parentNode parentName childNode childName w =
     (let (loc_id, parentType, w1) = doAppendHdf5Attribute_open env file_id parentName w in
      if loc_id < 0 then (0, childNode, doAppendHdf5Attribute_fail env parentType loc_id w1)
      else
       (let (childNode1, w2) = resolve_typeId env childNode w1 in
        if typeId childNode1 < 0
        then (0, childNode1, doAppendHdf5Attribute_fail env parentType loc_id w2)
        else
         (let (r, w3) = write_attribute_data env loc_id childNode1 childName w2 in
          if r < 0 then (0, childNode1, doAppendHdf5Attribute_fail env parentType loc_id w3)
          else (1, childNode1\<lparr>mark := NMARK_ORIGINAL\<rparr>,
                doAppendHdf5Attribute_fail env parentType loc_id w3))))"

text \<open>The parent of an appended group or dataset is opened as a group of \<^verbatim>\<open>file_id\<close>.\<close>

definition open_parent_group :: "'e env \<Rightarrow> hid_t \<Rightarrow> string \<Rightarrow> 'e world \<Rightarrow> hid_t \<times> 'e world" where
  "open_parent_group env file_id parentName w =
     (if parentName = '''' then h5 env (H5Gopen file_id ''/'') w
      else h5 env (H5Gopen file_id parentName) w)"

definition doAppendHdf5Group ::
  "'e env \<Rightarrow> hid_t \<Rightarrow> HL_Node option \<Rightarrow> string \<Rightarrow> HL_Node \<Rightarrow> string \<Rightarrow> 'e world \<Rightarrow>
   int \<times> HL_Node \<times> 'e world" where
  "doAppendHdf5Group env file_id parentNode parentName childNode childName w =
     (let (loc_id, w1) = open_parent_group env file_id parentName w in
      if loc_id < 0 then (0, childNode, HL_H5G_CLOSE env (-1) (HL_H5G_CLOSE env loc_id w1))
      else
       (let (new_id, w2) = h5 env (H5Gcreate loc_id childName) w1 in
        if new_id < 0
        then (0, childNode, HL_H5G_CLOSE env new_id (HL_H5G_CLOSE env loc_id w2))
        else (1, childNode\<lparr>mark := NMARK_ORIGINAL\<rparr>,
              HL_H5G_CLOSE env new_id (HL_H5G_CLOSE env loc_id w2))))"

definition doAppendHdf5Dataset ::
  "'e env \<Rightarrow> hid_t \<Rightarrow> HL_Node option \<Rightarrow> string \<Rightarrow> HL_Node \<Rightarrow> string \<Rightarrow> addr option \<Rightarrow>
   'e world \<Rightarrow> int \<times> HL_Node \<times> 'e world" where
  "doAppendHdf5Dataset env file_id parentNode parentName childNode childName compression_arg w =
     (let (loc_id, w1) = open_parent_group env file_id parentName w in
      if loc_id < 0 then (0, childNode, HL_H5D_CLOSE env (-1) (HL_H5G_CLOSE env loc_id w1))
      else
       (let (childNode1, w2) = resolve_typeId env childNode w1 in
        if typeId childNode1 < 0
        then (0, childNode1, HL_H5D_CLOSE env (-1) (HL_H5G_CLOSE env loc_id w2))
        else
         (let (new_id, w3) = createSimpleDataset env loc_id (typeId childNode1) childName
                               (ndims childNode1) (buf_hsizes w2 (dims childNode1))
                               (buf_bytes w2 (data childNode1)) compression_arg w2 in
          if new_id < 0
          then (0, childNode1, HL_H5D_CLOSE env new_id (HL_H5G_CLOSE env loc_id w3))
          else (1, childNode1\<lparr>mark := NMARK_ORIGINAL\<rparr>,
                HL_H5D_CLOSE env new_id (HL_H5G_CLOSE env loc_id w3)))))"

subsection \<open>\<^verbatim>\<open>hlhdf_write.c\<close>: interface functions\<close>

text \<open>
  The node list: the file name and the nodes in insertion order (\<^verbatim>\<open>nNodes\<close> is the
  length of the list).
\<close>

record HL_NodeList =
  filename :: string
  nodes :: "HL_Node list"

text \<open>
  Modelled from the spec: \<^verbatim>\<open>getHL_Node\<close> (\<^verbatim>\<open>hlhdf_nodelist.c\<close> is not among the sources;
  the header says "Locates a node called nodeName in the nodelist and returns a pointer to
  this node", \<^verbatim>\<open>NULL\<close> when there is none).
\<close>

definition getHL_Node :: "HL_Node list \<Rightarrow> string \<Rightarrow> HL_Node option" where
  "getHL_Node ns nodeName = find (\<lambda>n. name n = nodeName) ns"

text \<open>
  Modelled from the spec: \<^verbatim>\<open>extractParentChildName\<close> (not among the sources) resolves "the
  parent path (string-split on the last "/"; empty parent \<Rightarrow> root)". A name without any
  \<^verbatim>\<open>/\<close> cannot be split, which is the failure the callers test for.
\<close>

definition extractParentChildName :: "HL_Node \<Rightarrow> (string \<times> string) option" where
  "extractParentChildName node =
     (if CHR ''/'' \<in> set (name node)
      then Some (rev (tl (dropWhile (\<lambda>c. c \<noteq> CHR ''/'') (rev (name node)))),
                 rev (takeWhile (\<lambda>c. c \<noteq> CHR ''/'') (rev (name node))))
      else None)"

text \<open>
  The \<^verbatim>\<open>switch\<close> of \<^verbatim>\<open>writeHL_NodeList\<close>. The status is 0 where the C jumps to
  \<^verbatim>\<open>fail\<close> and 1 where it reaches the end of the loop body; the \<^verbatim>\<open>default\<close> case logs
  "Unrecognized type" and leaves the \<^verbatim>\<open>switch\<close>.
\<close>

definition write_switch ::
  "'e env \<Rightarrow> hid_t \<Rightarrow> hid_t \<Rightarrow> addr option \<Rightarrow> HL_Node option \<Rightarrow> string \<Rightarrow> HL_Node \<Rightarrow> string \<Rightarrow>
   'e world \<Rightarrow> fault + (int \<times> HL_Node \<times> 'e world)" where
  "write_switch env file_id gid compression_arg parentNode parentName node childName w =
     (case type node of
        ATTRIBUTE_ID \<Rightarrow> doWriteHdf5Attribute env gid parentNode parentName node childName w
      | GROUP_ID \<Rightarrow> doWriteHdf5Group env gid parentNode parentName node childName w
      | DATASET_ID \<Rightarrow>
          (if compression_arg \<noteq> None
           then doWriteHdf5Dataset env gid parentNode parentName node childName compression_arg w
           else doWriteHdf5Dataset env gid parentNode parentName node childName
                  (compression node) w)
      | TYPE_ID \<Rightarrow> Inr (doWriteHdf5Datatype env file_id parentNode parentName node childName w)
      | REFERENCE_ID \<Rightarrow>
          doWriteHdf5Reference env gid file_id parentNode parentName node childName w
      | UNDEFINED_ID \<Rightarrow> Inr (1, node, w))"

text \<open>
  The loop of \<^verbatim>\<open>writeHL_NodeList\<close>, on the nodes already visited (in their current state)
  and the nodes still to visit. \<^verbatim>\<open>parentNode\<close> keeps its value from one iteration to the
  next when the parent name is empty.
\<close>

fun write_nodes ::
  "'e env \<Rightarrow> hid_t \<Rightarrow> hid_t \<Rightarrow> addr option \<Rightarrow> HL_Node option \<Rightarrow> HL_Node list \<Rightarrow> HL_Node list \<Rightarrow>
   'e world \<Rightarrow> fault + (int \<times> HL_Node list \<times> 'e world)" where
  "write_nodes env file_id gid compression_arg parentNode visited [] w = Inr (1, visited, w)"
| "write_nodes env file_id gid compression_arg parentNode visited (node # rest) w =
     (case extractParentChildName node of
        None \<Rightarrow> Inr (0, visited @ node # rest, w)
      | Some (parentName, childName) \<Rightarrow>
         (let parentNode1 = (if parentName \<noteq> ''''
                             then getHL_Node (visited @ node # rest) parentName
                             else parentNode) in
          if parentName \<noteq> '''' \<and> parentNode1 = None then Inr (0, visited @ node # rest, w)
          else
           (case write_switch env file_id gid compression_arg parentNode1 parentName node
                   childName w of
              Inl f \<Rightarrow> Inl f
            | Inr (status, node1, w1) \<Rightarrow>
                if status = 0 then Inr (0, visited @ node1 # rest, w1)
                else write_nodes env file_id gid compression_arg parentNode1
                       (visited @ [node1]) rest w1)))"

text \<open>
  \<^verbatim>\<open>writeHL_NodeList\<close>. Both exits of the loop close \<^verbatim>\<open>gid\<close>, \<^verbatim>\<open>file_id\<close> and
  \<^verbatim>\<open>strhid\<close>, which is -1 throughout.
\<close>

definition writeHL_NodeList ::
  "'e env \<Rightarrow> HL_NodeList \<Rightarrow> addr option \<Rightarrow> addr option \<Rightarrow> 'e world \<Rightarrow>
   fault + (int \<times> HL_NodeList \<times> 'e world)" where
  "writeHL_NodeList env nodelist property compression_arg w =
     (let (file_id, w1) = h5 env (CreateHlHdfFile (filename nodelist) property) w in
      if file_id < 0 then Inr (0, nodelist, w1)
      else
       (let (gid, w2) = h5 env (H5Gopen file_id ''.'') w1 in
        if gid < 0 then Inr (0, nodelist, HL_H5F_CLOSE env file_id w2)
        else
         (case write_nodes env file_id gid compression_arg None [] (nodes nodelist) w2 of
            Inl f \<Rightarrow> Inl f
          | Inr (status, ns, w3) \<Rightarrow>
              Inr (status, nodelist\<lparr>nodes := ns\<rparr>,
                   HL_H5T_CLOSE env (-1) (HL_H5F_CLOSE env file_id (HL_H5G_CLOSE env gid w3))))))"

text \<open>
  The \<^verbatim>\<open>switch\<close> of \<^verbatim>\<open>updateHL_NodeList\<close>: it has no case for \<^verbatim>\<open>REFERENCE_ID\<close>, which
  goes to \<^verbatim>\<open>default\<close>, and the dataset case passes \<^verbatim>\<open>gid\<close> where the other cases pass
  \<^verbatim>\<open>file_id\<close>.
\<close>

definition update_switch ::
  "'e env \<Rightarrow> hid_t \<Rightarrow> hid_t \<Rightarrow> addr option \<Rightarrow> HL_Node option \<Rightarrow> string \<Rightarrow> HL_Node \<Rightarrow> string \<Rightarrow>
   'e world \<Rightarrow> int \<times> HL_Node \<times> 'e world" where
  "update_switch env file_id gid compression_arg parentNode parentName node childName w =
     (case type node of
        ATTRIBUTE_ID \<Rightarrow> doAppendHdf5Attribute env file_id parentNode parentName node childName w
      | GROUP_ID \<Rightarrow> doAppendHdf5Group env file_id parentNode parentName node childName w
      | DATASET_ID \<Rightarrow>
          (if compression_arg \<noteq> None
           then doAppendHdf5Dataset env gid parentNode parentName node childName compression_arg w
           else doAppendHdf5Dataset env gid parentNode parentName node childName
                  (compression node) w)
      | TYPE_ID \<Rightarrow> doWriteHdf5Datatype env file_id parentNode parentName node childName w
      | _ \<Rightarrow> (1, node, w))"

fun update_nodes ::
  "'e env \<Rightarrow> hid_t \<Rightarrow> hid_t \<Rightarrow> addr option \<Rightarrow> HL_Node option \<Rightarrow> HL_Node list \<Rightarrow> HL_Node list \<Rightarrow>
   'e world \<Rightarrow> int \<times> HL_Node list \<times> 'e world" where
  "update_nodes env file_id gid compression_arg parentNode visited [] w = (1, visited, w)"
| "update_nodes env file_id gid compression_arg parentNode visited (node # rest) w =
     (if mark node = NMARK_CREATED then
        (case extractParentChildName node of
           None \<Rightarrow> (0, visited @ node # rest, w)
         | Some (parentName, childName) \<Rightarrow>
            (let parentNode1 = (if parentName \<noteq> ''''
                                then getHL_Node (visited @ node # rest) parentName
                                else parentNode) in
             if parentName \<noteq> '''' \<and> parentNode1 = None then (0, visited @ node # rest, w)
             else
              (case update_switch env file_id gid compression_arg parentNode1 parentName node
                      childName w of
                 (status, node1, w1) \<Rightarrow>
                   if status = 0 then (0, visited @ node1 # rest, w1)
                   else update_nodes env file_id gid compression_arg parentNode1
                          (visited @ [node1]) rest w1)))
      else update_nodes env file_id gid compression_arg parentNode (visited @ [node]) rest w)"

text \<open>
  \<^verbatim>\<open>updateHL_NodeList\<close>: \<^verbatim>\<open>gid\<close> and \<^verbatim>\<open>strhid\<close> are initialised to -1 and never
  assigned.
\<close>

definition updateHL_NodeList ::
  "'e env \<Rightarrow> HL_NodeList \<Rightarrow> addr option \<Rightarrow> 'e world \<Rightarrow> int \<times> HL_NodeList \<times> 'e world" where
  "updateHL_NodeList env nodelist compression_arg w =
     (let (file_id, w1) = h5 env (OpenHlHdfFile (filename nodelist) ''rw'') w in
      if file_id < 0 then (0, nodelist, w1)
      else
       (case update_nodes env file_id (-1) compression_arg None [] (nodes nodelist) w1 of
          (status, ns, w2) \<Rightarrow>
            (status, nodelist\<lparr>nodes := ns\<rparr>,
             HL_H5T_CLOSE env (-1) (HL_H5F_CLOSE env file_id (HL_H5G_CLOSE env (-1) w2)))))"

subsection \<open>A storage engine and inputs for concrete runs\<close>

text \<open>
  The handles a call is given, and whether a successful call returns a new handle
  (otherwise it returns a status).
\<close>

fun handles_of :: "h5call \<Rightarrow> hid_t list" where
  "handles_of (H5Gopen h p) = [h]"
| "handles_of (H5Gcreate h p) = [h]"
| "handles_of (H5Dopen h p) = [h]"
| "handles_of (H5Dcreate h p t s pl) = (case pl of None \<Rightarrow> [h, t, s] | Some q \<Rightarrow> [h, t, s, q])"
| "handles_of (H5Dwrite d t b) = [d, t]"
| "handles_of (H5Pset_chunk p n ds) = [p]"
| "handles_of (H5Pset_deflate p l) = [p]"
| "handles_of (H5Pset_szip p m b) = [p]"
| "handles_of (H5Acreate h p t s) = [h, t, s]"
| "handles_of (H5Awrite a t b) = [a, t]"
| "handles_of (H5Awrite_ref a t) = [a, t]"
| "handles_of (H5Rcreate f t) = [f]"
| "handles_of (H5Tcommit h p t) = [h, t]"
| "handles_of (H5Tcommitted t) = [t]"
| "handles_of (H5Tcopy t) = [t]"
| "handles_of (H5Fclose h) = [h]"
| "handles_of (H5Gclose h) = [h]"
| "handles_of (H5Dclose h) = [h]"
| "handles_of (H5Sclose h) = [h]"
| "handles_of (H5Aclose h) = [h]"
| "handles_of (H5Tclose h) = [h]"
| "handles_of (H5Pclose h) = [h]"
| "handles_of c = []"

fun returns_handle :: "h5call \<Rightarrow> bool" where
  "returns_handle (CreateHlHdfFile f p) = True"
| "returns_handle (OpenHlHdfFile f m) = True"
| "returns_handle (TranslateCharToDatatype f) = True"
| "returns_handle (H5Gopen h p) = True"
| "returns_handle (H5Gcreate h p) = True"
| "returns_handle (H5Dopen h p) = True"
| "returns_handle (H5Dcreate h p t s pl) = True"
| "returns_handle H5Screate_SCALAR = True"
| "returns_handle (H5Screate_simple n ds) = True"
| "returns_handle H5Pcreate_DATASET_CREATE = True"
| "returns_handle (H5Acreate h p t s) = True"
| "returns_handle (H5Tcopy t) = True"
| "returns_handle H5Tcopy_STD_REF_OBJ = True"
| "returns_handle c = False"

text \<open>
  An engine in which every call on valid handles succeeds: a call given a negative
  handle fails with -1, as HDF5 does on an invalid identifier; a call that opens or
  creates returns the next handle (1, 2, ...); \<^verbatim>\<open>H5Tcommitted\<close> answers \<open>committed\<close>;
  every other call returns 0. The library state is the number of handles given out.
\<close>

definition accepting_engine :: "int \<Rightarrow> nat \<Rightarrow> h5call \<Rightarrow> int \<times> nat" where
  "accepting_engine committed s c =
     (if list_ex (\<lambda>h. h < 0) (handles_of c) then (-1, s)
      else if returns_handle c then (int (Suc s), Suc s)
      else (case c of H5Tcommitted t \<Rightarrow> (committed, s) | _ \<Rightarrow> (0, s)))"

text \<open>
  The compression selectors numbered as a C enum numbers them in the order none, zlib,
  szlib.
\<close>

definition CT_NONE_code :: int where
  "CT_NONE_code = 0"

definition accepting_env :: "int \<Rightarrow> nat env" where
  "accepting_env committed = \<lparr>engine = accepting_engine committed, CT_ZLIB = 1, CT_SZLIB = 2\<rparr>"

definition no_compression :: HL_Compression where
  "no_compression = \<lparr>ctype = CT_NONE_code, level = 0, szlib_mask = 0, szlib_px_per_block = 0\<rparr>"

definition empty_world :: "nat world" where
  "empty_world =
     \<lparr>bytes = Map.empty, hsizes = Map.empty, descrs = Map.empty,
      comprs = (\<lambda>a. no_compression), nxt = 0, est = 0, calls = []\<rparr>"

text \<open>The typed constructors of \<^verbatim>\<open>hlhdf_node.c\<close>.\<close>

definition newHL_NodeWithType :: "string \<Rightarrow> HL_Type \<Rightarrow> HL_Node" where
  "newHL_NodeWithType nm t = (newHL_Node nm)\<lparr>type := t\<rparr>"

definition newHL_Group :: "string \<Rightarrow> HL_Node" where
  "newHL_Group nm = newHL_NodeWithType nm GROUP_ID"

definition newHL_Attribute :: "string \<Rightarrow> HL_Node" where
  "newHL_Attribute nm = newHL_NodeWithType nm ATTRIBUTE_ID"

definition newHL_Dataset :: "string \<Rightarrow> HL_Node" where
  "newHL_Dataset nm = newHL_NodeWithType nm DATASET_ID"

definition newHL_Datatype :: "string \<Rightarrow> HL_Node" where
  "newHL_Datatype nm = newHL_NodeWithType nm TYPE_ID"

definition newHL_Reference :: "string \<Rightarrow> HL_Node" where
  "newHL_Reference nm = newHL_NodeWithType nm REFERENCE_ID"

subsection \<open>Concrete nodes\<close>

text \<open>A dataset node of shape (10, 10), its dimensions array at address 0.\<close>

definition grid_world :: "nat world" where
  "grid_world = empty_world\<lparr>hsizes := [0 \<mapsto> [10, 10]], nxt := 1\<rparr>"

definition grid_node :: HL_Node where
  "grid_node = (newHL_Dataset ''/d'')\<lparr>ndims := 2, dims := Some 0\<rparr>"

subsection \<open>Reading the result of a write\<close>

definition status_of :: "fault + (int \<times> 'a \<times> 'b) \<Rightarrow> int option" where
  "status_of r = (case r of Inl f \<Rightarrow> None | Inr (s, x, w) \<Rightarrow> Some s)"

definition nodes_of :: "fault + (int \<times> HL_NodeList \<times> 'b) \<Rightarrow> HL_Node list option" where
  "nodes_of r = (case r of Inl f \<Rightarrow> None | Inr (s, nl, w) \<Rightarrow> Some (nodes nl))"

definition world_of :: "fault + (int \<times> 'a \<times> 'b) \<Rightarrow> 'b option" where
  "world_of r = (case r of Inl f \<Rightarrow> None | Inr (s, x, w) \<Rightarrow> Some w)"

subsection \<open>Concrete node lists\<close>

text \<open>A scalar dataset directly under the root, with its type handle set.\<close>

definition one_dataset :: HL_NodeList where
  "one_dataset = \<lparr>filename = ''f.h5'', nodes = [(newHL_Dataset ''/d'')\<lparr>typeId := 5\<rparr>]\<rparr>"

definition one_group :: HL_NodeList where
  "one_group = \<lparr>filename = ''f.h5'', nodes = [newHL_Group ''/g'']\<rparr>"

text \<open>A named type whose type handle is 7, as \<^verbatim>\<open>commitHL_Datatype\<close> stores it.\<close>

definition one_datatype :: HL_NodeList where
  "one_datatype = \<lparr>filename = ''f.h5'', nodes = [(newHL_Datatype ''/t'')\<lparr>hdfId := 7\<rparr>]\<rparr>"

definition one_reference :: HL_NodeList where
  "one_reference = \<lparr>filename = ''f.h5'', nodes = [newHL_Reference ''/r'']\<rparr>"


text \<open>A group, and a dataset under a group \<^verbatim>\<open>/x\<close> that is not in the list.\<close>

definition orphan_dataset :: HL_NodeList where
  "orphan_dataset =
     \<lparr>filename = ''f.h5'',
      nodes = [newHL_Group ''/g'', (newHL_Dataset ''/x/d'')\<lparr>typeId := 5\<rparr>]\<rparr>"

text \<open>
  A group, a second group whose node already holds the handle 3, and a dataset under a
  group \<^verbatim>\<open>/x\<close> that is not in the list.
\<close>

definition stale_handle :: HL_NodeList where
  "stale_handle =
     \<lparr>filename = ''f.h5'',
      nodes = [newHL_Group ''/g'', (newHL_Group ''/h'')\<lparr>hdfId := 3\<rparr>,
               (newHL_Dataset ''/x/d'')\<lparr>typeId := 5\<rparr>]\<rparr>"

text \<open>A group read from the file (mark Original) and a new group under it.\<close>

definition old_and_new :: HL_NodeList where
  "old_and_new =
     \<lparr>filename = ''f.h5'',
      nodes = [(newHL_Group ''/g'')\<lparr>mark := NMARK_ORIGINAL\<rparr>, newHL_Group ''/g/h'']\<rparr>"

subsection \<open>Buffers left alone\<close>

text \<open>
  Two states hold the same buffers: the byte buffers, the dimension arrays and the
  compound descriptors are the same, and nothing was allocated in between.
\<close>

definition same_buffers :: "'e world \<Rightarrow> 'e world \<Rightarrow> bool" where
  "same_buffers w w' \<longleftrightarrow>
     bytes w' = bytes w \<and> hsizes w' = hsizes w \<and> descrs w' = descrs w \<and> nxt w' = nxt w"

subsection \<open>Well-formed memory\<close>

text \<open>Every block in use lies below the next address of the allocator.\<close>

definition allocator_ok :: "'e world \<Rightarrow> bool" where
  "allocator_ok w \<longleftrightarrow>
     (\<forall>a. bytes w a \<noteq> None \<or> hsizes w a \<noteq> None \<or> descrs w a \<noteq> None \<longrightarrow> a < nxt w)"

text \<open>
  The buffers of a node have the sizes its fields announce: the dimensions array holds
  \<^verbatim>\<open>ndims\<close> extents, the data buffer holds (number of points) \<open>\<times>\<close> \<^verbatim>\<open>dSize\<close> bytes (an
  absent buffer holds none), the raw data buffer, when there is one, holds (number of
  points) \<open>\<times>\<close> \<^verbatim>\<open>rdSize\<close> bytes, and the pointers of the node point to blocks in use.
\<close>

definition points_or_zero :: "'e world \<Rightarrow> HL_Node \<Rightarrow> hsize_t" where
  "points_or_zero w node = (case getHL_NodeNumberOfPoints w node of Inl f \<Rightarrow> 0 | Inr n \<Rightarrow> n)"

definition buffers_sized :: "'e world \<Rightarrow> HL_Node \<Rightarrow> bool" where
  "buffers_sized w node \<longleftrightarrow>
     dims_allocated w node \<and>
     (case data node of
        None \<Rightarrow> unat (points_or_zero w node * dSize node) = 0
      | Some a \<Rightarrow>
          (case bytes w a of
             None \<Rightarrow> False
           | Some bs \<Rightarrow> length bs = unat (points_or_zero w node * dSize node))) \<and>
     (case rawdata node of
        None \<Rightarrow> True
      | Some a \<Rightarrow>
          (case bytes w a of
             None \<Rightarrow> False
           | Some bs \<Rightarrow> length bs = unat (points_or_zero w node * rdSize node))) \<and>
     (case compoundDescription node of None \<Rightarrow> True | Some a \<Rightarrow> descrs w a \<noteq> None)"

text \<open>
  The second state extends the first: the allocator has not gone back, and every block
  below its former next address is as it was.
\<close>

definition extends :: "'e world \<Rightarrow> 'e world \<Rightarrow> bool" where
  "extends w w' \<longleftrightarrow>
     nxt w \<le> nxt w' \<and>
     (\<forall>a. a < nxt w \<longrightarrow>
        bytes w' a = bytes w a \<and> hsizes w' a = hsizes w a \<and> descrs w' a = descrs w a)"

text \<open>Overwriting the buffer at an address, as a write through a pointer does.\<close>

definition store_bytes :: "addr \<Rightarrow> byte list \<Rightarrow> 'e world \<Rightarrow> 'e world" where
  "store_bytes a bs w = w\<lparr>bytes := (bytes w)(a \<mapsto> bs)\<rparr>"

definition store_hsizes :: "addr \<Rightarrow> hsize_t list \<Rightarrow> 'e world \<Rightarrow> 'e world" where
  "store_hsizes a ds w = w\<lparr>hsizes := (hsizes w)(a \<mapsto> ds)\<rparr>"

subsection \<open>Reading the result of a copy\<close>

definition copy_of :: "fault + (HL_Node option \<times> 'b) \<Rightarrow> HL_Node option" where
  "copy_of r = (case r of Inl f \<Rightarrow> None | Inr (c, w) \<Rightarrow> c)"

definition copy_world :: "fault + (HL_Node option \<times> 'b) \<Rightarrow> 'b option" where
  "copy_world r = (case r of Inl f \<Rightarrow> None | Inr (c, w) \<Rightarrow> Some w)"

text \<open>The data bytes of the copy, in the memory the copy was made in.\<close>

definition copy_data :: "fault + (HL_Node option \<times> 'e world) \<Rightarrow> byte list option" where
  "copy_data r =
     (case r of
        Inl f \<Rightarrow> None
      | Inr (c, w) \<Rightarrow> (case c of None \<Rightarrow> None | Some n \<Rightarrow> buf_bytes w (data n)))"

subsection \<open>Concrete nodes to copy\<close>

text \<open>
  An attribute of shape (2, 2) with one-byte elements: dimensions at address 0, data at
  address 1, raw data at address 2, a compound descriptor at address 3, type handle 7,
  bound to the storage object 9, with compression settings of its own (at address 0 of
  the settings).
\<close>

definition square_world :: "nat world" where
  "square_world =
     empty_world\<lparr>hsizes := [0 \<mapsto> [2, 2]], bytes := [1 \<mapsto> [1, 2, 3, 4], 2 \<mapsto> [5, 6, 7, 8]],
                 descrs := [3 \<mapsto> [(''f'', 0, HLHDF_FORMAT ''int'', [])]], nxt := 4\<rparr>"

definition square_node :: HL_Node where
  "square_node =
     (newHL_Attribute ''/a'')\<lparr>ndims := 2, dims := Some 0, data := Some 1, rawdata := Some 2,
        format := HLHDF_FORMAT ''uchar'', typeId := 7, dSize := 1, rdSize := 1,
        dataType := HL_ARRAY, hdfId := 9, mark := NMARK_ORIGINAL,
        compoundDescription := Some 3, compression := Some 0\<rparr>"

text \<open>
  A node in the state that \<^verbatim>\<open>getHL_NodeNumberOfPoints\<close> answers with 0: a scalar value of
  four bytes was set (\<^verbatim>\<open>setHL_NodeScalarValue\<close>), then \<^verbatim>\<open>setHL_NodeDimensions(node, 1, NULL)\<close>
  was called. The data is at address 0.
\<close>

definition lopsided_world :: "nat world" where
  "lopsided_world = empty_world\<lparr>bytes := [0 \<mapsto> [1, 2, 3, 4]], nxt := 1\<rparr>"

definition lopsided_node :: HL_Node where
  "lopsided_node =
     (newHL_Attribute ''/a'')\<lparr>ndims := 1, dims := None, data := Some 0,
        format := HLHDF_FORMAT ''int'', typeId := 7, dSize := 4, dataType := HL_SIMPLE\<rparr>"

text \<open>
  A scalar dataset node of one byte with its own compression settings
  (\<^verbatim>\<open>setHL_NodeCompression\<close>), the settings at address 0 and the data at address 0 of the
  byte buffers.
\<close>

definition compressed_world :: "nat world" where
  "compressed_world = empty_world\<lparr>bytes := [0 \<mapsto> [42]], nxt := 1\<rparr>"

definition compressed_node :: HL_Node where
  "compressed_node =
     (newHL_Dataset ''/d'')\<lparr>data := Some 0, format := HLHDF_FORMAT ''uchar'', typeId := 7,
        dSize := 1, dataType := HL_SIMPLE, compression := Some 0\<rparr>"

text \<open>
  The data bytes of a node in the memory that a copy left, after the bytes \<open>bs\<close> were
  stored at address \<open>a\<close>.
\<close>

definition data_after_store ::
  "addr \<Rightarrow> byte list \<Rightarrow> HL_Node \<Rightarrow> fault + (HL_Node option \<times> 'e world) \<Rightarrow> byte list option" where
  "data_after_store a bs node r =
     (case r of Inl f \<Rightarrow> None | Inr (c, w) \<Rightarrow> buf_bytes (store_bytes a bs w) (data node))"

text \<open>The selector of the compression settings at an address.\<close>

definition selector_at :: "addr \<Rightarrow> 'e world \<Rightarrow> int" where
  "selector_at a w = ctype (comprs w a)"

subsection \<open>Closing calls\<close>

text \<open>
  The calls that close a group or a dataset, and those of them among the calls made up to
  a state.
\<close>

fun closes_object :: "h5call \<Rightarrow> bool" where
  "closes_object (H5Gclose h) = True"
| "closes_object (H5Dclose h) = True"
| "closes_object c = False"

definition object_closes :: "'e world \<Rightarrow> h5call list" where
  "object_closes w = filter closes_object (calls w)"

text \<open>
  A group or dataset node that is bound to no storage object: its \<^verbatim>\<open>hdfId\<close> is negative,
  as \<^verbatim>\<open>newHL_Node\<close> leaves it. Nodes of the other types are not concerned.
\<close>

definition unbound :: "HL_Node \<Rightarrow> bool" where
  "unbound node \<longleftrightarrow> (type node = GROUP_ID \<or> type node = DATASET_ID \<longrightarrow> hdfId node < 0)"

subsection \<open>A node of many points\<close>

text \<open>
  A dataset node of shape \<open>(2\<^sup>3\<^sup>2, 2\<^sup>3\<^sup>2)\<close>, its dimensions array at address 0.
\<close>

definition wide_world :: "nat world" where
  "wide_world = empty_world\<lparr>hsizes := [0 \<mapsto> [4294967296, 4294967296]], nxt := 1\<rparr>"

definition wide_node :: HL_Node where
  "wide_node = (newHL_Dataset ''/d'')\<lparr>ndims := 2, dims := Some 0\<rparr>"

text \<open>The product of the extents of a node as natural numbers, with no bound.\<close>

definition product_of_extents :: "'e world \<Rightarrow> HL_Node \<Rightarrow> nat option" where
  "product_of_extents w node = map_option (prod_list \<circ> map unat) (buf_hsizes w (dims node))"

section \<open>Properties\<close>

subsection \<open>Dimensions and number of points\<close>

lemma mult_dims_upt:
  "hsizes w a = Some ds \<Longrightarrow> k \<le> length ds \<Longrightarrow>
   mult_dims w (Some a) [k ..< length ds] n = Inr (n * prod_list (drop k ds))"
proof (induction "length ds - k" arbitrary: k n)
  case 0
  then show ?case by simp
next
  case (Suc m)
  then have lt: "k < length ds" by simp
  have step: "read_hsize w (Some a) k = Inr (ds ! k)"
    using Suc.prems(1) lt by (simp add: read_hsize_def)
  have "m = length ds - Suc k" using Suc.hyps(2) by simp
  then have ih: "mult_dims w (Some a) [Suc k ..< length ds] (n * ds ! k)
               = Inr (n * ds ! k * prod_list (drop (Suc k) ds))"
    using Suc.hyps(1) [of "Suc k" "n * ds ! k"] Suc.prems(1) lt by simp
  have dr: "drop k ds = ds ! k # drop (Suc k) ds"
    using lt by (simp add: Cons_nth_drop_Suc)
  show ?case
    using lt step ih dr by (simp add: upt_conv_Cons mult.assoc)
qed

lemma unat_prod_list:
  "unat (prod_list (ds :: 64 word list)) = prod_list (map unat ds) mod 2 ^ 64"
proof (induction ds)
  case Nil
  then show ?case by simp
next
  case (Cons d ds)
  have "unat (d * prod_list ds) = (unat d * unat (prod_list ds)) mod 2 ^ 64"
    by (simp add: unat_word_ariths)
  also have "\<dots> = (unat d * (prod_list (map unat ds) mod 2 ^ 64)) mod 2 ^ 64"
    using Cons.IH by simp
  also have "\<dots> = (unat d * prod_list (map unat ds)) mod 2 ^ 64"
    by (simp add: mod_mult_right_eq)
  finally show ?case by simp
qed

lemma points_of_allocated:
  assumes "0 < ndims node" and "dims_allocated w node" and "buf_hsizes w (dims node) = Some ds"
  shows "getHL_NodeNumberOfPoints w node = Inr (prod_list ds)"
proof -
  from assms(3) obtain a where a: "dims node = Some a" "hsizes w a = Some ds"
    by (auto simp: buf_hsizes_def split: option.splits)
  with assms(2) have len: "nat (ndims node) = length ds"
    by (auto simp: dims_allocated_def)
  have "mult_dims w (Some a) [0 ..< length ds] 1 = Inr (1 * prod_list (drop 0 ds))"
    using a(2) by (intro mult_dims_upt) simp_all
  then show ?thesis
    using assms(1) a len by (simp add: getHL_NodeNumberOfPoints_def)
qed

text \<open>
  Claim C9 (as amended). \<^verbatim>\<open>getHL_NodeNumberOfPoints\<close> returns 1 for a node of zero
  dimensions, 0 for a node with a positive dimension count and no dimensions array, and,
  for a node with a positive dimension count whose dimensions array is present (and holds
  that many extents), the product of the extents as the loop computes it in \<^verbatim>\<open>hsize_t\<close>:
  the product of the extents modulo \<open>2 ^ 64\<close>, which is the product itself when that is
  below \<open>2 ^ 64\<close>.
\<close>

theorem getHL_NodeNumberOfPoints_cases:
  "(ndims node = 0 \<longrightarrow> getHL_NodeNumberOfPoints w node = Inr 1) \<and>
   (0 < ndims node \<and> dims node = None \<longrightarrow> getHL_NodeNumberOfPoints w node = Inr 0) \<and>
   (0 < ndims node \<and> dims_allocated w node \<and> buf_hsizes w (dims node) = Some ds \<longrightarrow>
      getHL_NodeNumberOfPoints w node = Inr (prod_list ds) \<and>
      unat (prod_list ds) = prod_list (map unat ds) mod 2 ^ 64)"
proof (intro conjI impI)
  show "getHL_NodeNumberOfPoints w node = Inr 1" if "ndims node = 0"
    using that by (simp add: getHL_NodeNumberOfPoints_def)
  show "getHL_NodeNumberOfPoints w node = Inr 0" if "0 < ndims node \<and> dims node = None"
    using that by (simp add: getHL_NodeNumberOfPoints_def)
  show "unat (prod_list ds) = prod_list (map unat ds) mod 2 ^ 64"
    by (rule unat_prod_list)
  show "getHL_NodeNumberOfPoints w node = Inr (prod_list ds)"
    if "0 < ndims node \<and> dims_allocated w node \<and> buf_hsizes w (dims node) = Some ds"
    using that by (simp add: points_of_allocated)
qed

theorem getHL_NodeNumberOfPoints_cases_witness:
  "ndims (newHL_Node ''/s'') = 0 \<and>
   getHL_NodeNumberOfPoints grid_world (newHL_Node ''/s'') = Inr 1 \<and>
   0 < ndims (grid_node\<lparr>dims := None\<rparr>) \<and> dims (grid_node\<lparr>dims := None\<rparr>) = None \<and>
   getHL_NodeNumberOfPoints grid_world (grid_node\<lparr>dims := None\<rparr>) = Inr 0 \<and>
   0 < ndims grid_node \<and> dims_allocated grid_world grid_node \<and>
   buf_hsizes grid_world (dims grid_node) = Some [10, 10] \<and>
   getHL_NodeNumberOfPoints grid_world grid_node = Inr 100"
  using getHL_NodeNumberOfPoints_cases [of "newHL_Node ''/s''" grid_world "[]"]
        getHL_NodeNumberOfPoints_cases [of "grid_node\<lparr>dims := None\<rparr>" grid_world "[]"]
        getHL_NodeNumberOfPoints_cases [of grid_node grid_world "[10, 10]"]
  by (simp add: grid_node_def grid_world_def empty_world_def newHL_Dataset_def
        newHL_NodeWithType_def newHL_Node_def dims_allocated_def buf_hsizes_def)

text \<open>
  Claim C9 as stated fails where it has the product of all dimension extents returned,
  for every node. A node of two dimensions with the extents \<open>2\<^sup>3\<^sup>2\<close> and \<open>2\<^sup>3\<^sup>2\<close>, in an
  array of two extents (\<^verbatim>\<open>setHL_NodeDimensions\<close> accepts these extents, with status 1): the
  product of the extents is \<open>2\<^sup>6\<^sup>4\<close>, and \<^verbatim>\<open>getHL_NodeNumberOfPoints\<close> returns 0.
\<close>

theorem getHL_NodeNumberOfPoints_wraps:
  "0 < ndims wide_node \<and> dims wide_node \<noteq> None \<and> dims_allocated wide_world wide_node \<and>
   buf_hsizes wide_world (dims wide_node) = Some [4294967296, 4294967296] \<and>
   status_of (setHL_NodeDimensions (newHL_Dataset ''/d'') 2 (dims wide_node) wide_world)
     = Some 1 \<and>
   product_of_extents wide_world wide_node = Some 18446744073709551616 \<and>
   getHL_NodeNumberOfPoints wide_world wide_node = Inr 0"
  by (simp add: wide_node_def wide_world_def empty_world_def newHL_Dataset_def
        newHL_NodeWithType_def newHL_Node_def dims_allocated_def buf_hsizes_def
        product_of_extents_def getHL_NodeNumberOfPoints_def read_hsize_def upt_rec
        status_of_def setHL_NodeDimensions_def memcpy_hsizes_def malloc_hsizes_def
        case_prod_beta Let_def)

text \<open>
  Claim C10. \<^verbatim>\<open>getHL_NodeDimension\<close> returns 0 when the index is negative, when it is at
  or beyond the dimension count, and when the dimensions array is absent; for a node
  whose dimensions array holds \<^verbatim>\<open>ndims\<close> extents it returns a value for every index,
  namely the extent at that index when none of the three conditions holds, read inside
  the array.
\<close>

theorem getHL_NodeDimension_total:
  "(index < 0 \<or> ndims node \<le> index \<or> dims node = None \<longrightarrow>
      getHL_NodeDimension w node index = Inr 0) \<and>
   (dims_allocated w node \<longrightarrow> (\<exists>v. getHL_NodeDimension w node index = Inr v)) \<and>
   (dims_allocated w node \<and> 0 \<le> index \<and> index < ndims node \<and>
    buf_hsizes w (dims node) = Some ds \<longrightarrow>
      nat index < length ds \<and> getHL_NodeDimension w node index = Inr (ds ! nat index))"
  by (auto simp: getHL_NodeDimension_def dims_allocated_def buf_hsizes_def read_hsize_def
           split: option.splits)

theorem getHL_NodeDimension_total_witness:
  "dims_allocated grid_world grid_node \<and>
   buf_hsizes grid_world (dims grid_node) = Some [10, 10] \<and>
   (0::int) \<le> 1 \<and> 1 < ndims grid_node \<and>
   getHL_NodeDimension grid_world grid_node 1 = Inr 10 \<and>
   ndims grid_node \<le> 2 \<and> getHL_NodeDimension grid_world grid_node 2 = Inr 0 \<and>
   getHL_NodeDimension grid_world grid_node (-1) = Inr 0"
  using getHL_NodeDimension_total [of 1 grid_node grid_world "[10, 10]"]
        getHL_NodeDimension_total [of 2 grid_node grid_world "[10, 10]"]
        getHL_NodeDimension_total [of "-1" grid_node grid_world "[10, 10]"]
  by (simp add: grid_node_def grid_world_def empty_world_def newHL_Dataset_def
        newHL_NodeWithType_def newHL_Node_def dims_allocated_def buf_hsizes_def)

subsection \<open>The loop of \<^verbatim>\<open>writeHL_NodeList\<close>\<close>

lemma resolve_typeId_name: "name (fst (resolve_typeId env node w)) = name node"
  by (simp add: resolve_typeId_def case_prod_beta)

lemma tmpLocId_parent:
  "parentName \<noteq> '''' \<longrightarrow> parentNode \<noteq> None \<Longrightarrow>
   \<exists>loc. tmpLocId gid parentNode parentName = Inr loc"
  by (cases parentNode) (simp_all add: tmpLocId_def)

lemma write_switch_no_fault:
  assumes "parentName \<noteq> '''' \<longrightarrow> parentNode \<noteq> None"
  shows "write_switch env file_id gid carg parentNode parentName node childName w \<noteq> Inl f"
proof -
  obtain loc where loc: "tmpLocId gid parentNode parentName = Inr loc"
    using tmpLocId_parent [OF assms] by blast
  show ?thesis
    using loc
    by (cases "type node")
       (simp_all add: write_switch_def doWriteHdf5Attribute_def doWriteHdf5Group_def
          doWriteHdf5Dataset_def doWriteHdf5Reference_def case_prod_beta Let_def)
qed

lemma write_switch_name:
  assumes "write_switch env file_id gid carg parentNode parentName node childName w
             = Inr (status, node1, w1)"
  shows "name node1 = name node"
proof (cases "tmpLocId gid parentNode parentName")
  case (Inl f)
  then show ?thesis
    using assms
    by (cases "type node")
       (auto simp: write_switch_def doWriteHdf5Attribute_def doWriteHdf5Group_def
          doWriteHdf5Dataset_def doWriteHdf5Reference_def doWriteHdf5Datatype_def
          case_prod_beta Let_def split: if_splits)
next
  case (Inr loc)
  then show ?thesis
    using assms resolve_typeId_name [of env node w]
    by (cases "type node")
       (auto simp: write_switch_def doWriteHdf5Attribute_def doWriteHdf5Group_def
          doWriteHdf5Dataset_def doWriteHdf5Reference_def doWriteHdf5Datatype_def
          case_prod_beta Let_def split: if_splits)
qed

lemma getHL_Node_None: "getHL_Node ns p = None \<longleftrightarrow> p \<notin> name ` set ns"
  by (auto simp: getHL_Node_def find_None_iff)

lemma write_nodes_no_split:
  "extractParentChildName node = None \<Longrightarrow>
   write_nodes env file_id gid carg pn visited (node # rest) w
     = Inr (0, visited @ node # rest, w)"
  by simp

lemma write_nodes_no_parent:
  "extractParentChildName node = Some (p, ch) \<Longrightarrow> p \<noteq> '''' \<Longrightarrow>
   getHL_Node (visited @ node # rest) p = None \<Longrightarrow>
   write_nodes env file_id gid carg pn visited (node # rest) w
     = Inr (0, visited @ node # rest, w)"
  by (simp add: Let_def)

lemma write_nodes_step:
  "extractParentChildName node = Some (p, ch) \<Longrightarrow>
   p \<noteq> '''' \<longrightarrow> getHL_Node (visited @ node # rest) p \<noteq> None \<Longrightarrow>
   write_switch env file_id gid carg
     (if p \<noteq> '''' then getHL_Node (visited @ node # rest) p else pn) p node ch w
     = Inr (status, node1, w1) \<Longrightarrow>
   write_nodes env file_id gid carg pn visited (node # rest) w
     = (if status = 0 then Inr (0, visited @ node1 # rest, w1)
        else write_nodes env file_id gid carg
               (if p \<noteq> '''' then getHL_Node (visited @ node # rest) p else pn)
               (visited @ [node1]) rest w1)"
  by (auto simp: Let_def)

lemma write_nodes_missing_parent:
  assumes "i < length todo"
    and "extractParentChildName (todo ! i) = Some (p, c)"
    and "p \<noteq> ''''"
    and "p \<notin> name ` set (visited @ todo)"
  shows "\<exists>ns w'. write_nodes env file_id gid carg pn visited todo w = Inr (0, ns, w') \<and>
           map name ns = map name (visited @ todo) \<and>
           drop (length visited + i) ns = drop i todo"
  using assms
proof (induction todo arbitrary: i visited pn w)
  case Nil
  then show ?case by simp
next
  case (Cons node rest)
  show ?case
  proof (cases i)
    case 0
    then have "getHL_Node (visited @ node # rest) p = None"
      using Cons.prems(4) by (simp add: getHL_Node_None)
    then have "write_nodes env file_id gid carg pn visited (node # rest) w
                 = Inr (0, visited @ node # rest, w)"
      using 0 Cons.prems(2,3) write_nodes_no_parent [of node p c visited rest]
      by (simp del: write_nodes.simps)
    then show ?thesis using 0 by simp
  next
    case (Suc j)
    show ?thesis
    proof (cases "extractParentChildName node")
      case None
      then show ?thesis using Suc by (simp add: write_nodes_no_split del: write_nodes.simps)
    next
      case (Some pc)
      obtain parentName childName where pc: "pc = (parentName, childName)"
        by (cases pc)
      define pn1 where "pn1 = (if parentName \<noteq> ''''
                               then getHL_Node (visited @ node # rest) parentName else pn)"
      show ?thesis
      proof (cases "parentName \<noteq> '''' \<and> getHL_Node (visited @ node # rest) parentName = None")
        case True
        then have "write_nodes env file_id gid carg pn visited (node # rest) w
                     = Inr (0, visited @ node # rest, w)"
          using Some pc write_nodes_no_parent [of node parentName childName visited rest]
          by (simp del: write_nodes.simps)
        then show ?thesis using Suc by simp
      next
        case False
        have ok: "parentName \<noteq> '''' \<longrightarrow> getHL_Node (visited @ node # rest) parentName \<noteq> None"
          using False by auto
        then have ok1: "parentName \<noteq> '''' \<longrightarrow> pn1 \<noteq> None"
          by (simp add: pn1_def)
        obtain status node1 w1 where
          sw: "write_switch env file_id gid carg pn1 parentName node childName w
                 = Inr (status, node1, w1)"
          using write_switch_no_fault [OF ok1, of env file_id gid carg node childName w]
          by (cases "write_switch env file_id gid carg pn1 parentName node childName w") auto
        have nm: "name node1 = name node"
          using write_switch_name [OF sw] .
        have unfold: "write_nodes env file_id gid carg pn visited (node # rest) w
             = (if status = 0 then Inr (0, visited @ node1 # rest, w1)
                else write_nodes env file_id gid carg pn1 (visited @ [node1]) rest w1)"
          using write_nodes_step [OF _ ok, of childName env file_id gid carg pn w status node1 w1]
                Some pc sw
          by (simp add: pn1_def del: write_nodes.simps)
        show ?thesis
        proof (cases "status = 0")
          case True
          then show ?thesis
            using unfold nm Suc by simp
        next
          case nz: False
          have j: "j < length rest" using Cons.prems(1) Suc by simp
          have e: "extractParentChildName (rest ! j) = Some (p, c)"
            using Cons.prems(2) Suc by simp
          have notin: "p \<notin> name ` set ((visited @ [node1]) @ rest)"
            using Cons.prems(4) nm by simp
          from Cons.IH [OF j e Cons.prems(3) notin, of pn1 w1]
          obtain ns w' where
            r: "write_nodes env file_id gid carg pn1 (visited @ [node1]) rest w1 = Inr (0, ns, w')"
            and n: "map name ns = map name ((visited @ [node1]) @ rest)"
            and d: "drop (length (visited @ [node1]) + j) ns = drop j rest"
            by blast
          have "write_nodes env file_id gid carg pn visited (node # rest) w = Inr (0, ns, w')"
            using unfold nz r by simp
          then show ?thesis
            using n d nm Suc by simp
        qed
      qed
    qed
  qed
qed

subsection \<open>Groups and datasets closed during a write\<close>

text \<open>
  The functions that write a node make no \<^verbatim>\<open>H5Gclose\<close> and no \<^verbatim>\<open>H5Dclose\<close>, save for the
  handle that a group or dataset node holds on entry, which \<^verbatim>\<open>doWriteHdf5Group\<close> and
  \<^verbatim>\<open>doWriteHdf5Dataset\<close> close before they create the object.
\<close>

lemma object_closes_h5:
  "object_closes (snd (h5 env c w)) = object_closes w @ (if closes_object c then [c] else [])"
  by (simp add: object_closes_def h5_def case_prod_beta)

lemma object_closes_close [simp]:
  "object_closes (HL_H5F_CLOSE env x w) = object_closes w"
  "object_closes (HL_H5S_CLOSE env x w) = object_closes w"
  "object_closes (HL_H5A_CLOSE env x w) = object_closes w"
  "object_closes (HL_H5T_CLOSE env x w) = object_closes w"
  "object_closes (HL_H5P_CLOSE env x w) = object_closes w"
  by (simp_all add: HL_H5F_CLOSE_def HL_H5S_CLOSE_def HL_H5A_CLOSE_def HL_H5T_CLOSE_def
        HL_H5P_CLOSE_def object_closes_h5)

lemma object_closes_group_close:
  "object_closes (HL_H5G_CLOSE env x w) = object_closes w @ (if 0 \<le> x then [H5Gclose x] else [])"
  by (simp add: HL_H5G_CLOSE_def object_closes_h5)

lemma object_closes_dataset_close:
  "object_closes (HL_H5D_CLOSE env x w) = object_closes w @ (if 0 \<le> x then [H5Dclose x] else [])"
  by (simp add: HL_H5D_CLOSE_def object_closes_h5)

lemma object_closes_compression_test [simp]:
  "object_closes (snd (compression_test env a w)) = object_closes w"
  by (simp add: compression_test_def object_closes_def Let_def)

lemma object_closes_attribute_fail [simp]:
  "object_closes (snd (attribute_fail env s a st w)) = object_closes w"
  by (simp add: attribute_fail_def)

lemma object_closes_writeScalarDataAttribute [simp]:
  "object_closes (snd (writeScalarDataAttribute env l t n b w)) = object_closes w"
  by (simp add: writeScalarDataAttribute_def case_prod_beta Let_def object_closes_h5)

lemma object_closes_writeSimpleDataAttribute [simp]:
  "object_closes (snd (writeSimpleDataAttribute env l t n nd dv b w)) = object_closes w"
  by (simp add: writeSimpleDataAttribute_def case_prod_beta Let_def object_closes_h5)

lemma object_closes_write_attribute_data [simp]:
  "object_closes (snd (write_attribute_data env l node n w)) = object_closes w"
  by (simp add: write_attribute_data_def)

lemma object_closes_resolve_typeId [simp]:
  "object_closes (snd (resolve_typeId env node w)) = object_closes w"
  by (simp add: resolve_typeId_def case_prod_beta object_closes_h5)

lemma object_closes_createReference_fail [simp]:
  "object_closes (snd (createReference_fail env a b c st w)) = object_closes w"
  by (simp add: createReference_fail_def)

lemma object_closes_createReference [simp]:
  "object_closes (snd (createReference env l f n t w)) = object_closes w"
  by (simp add: createReference_def case_prod_beta Let_def object_closes_h5)

lemma object_closes_createSimpleDataset_done [simp]:
  "object_closes (snd (createSimpleDataset_done env s p d w)) = object_closes w"
  by (simp add: createSimpleDataset_done_def)

lemma object_closes_createSimpleDataset_write [simp]:
  "object_closes (snd (createSimpleDataset_write env s p d t b w)) = object_closes w"
  by (simp add: createSimpleDataset_write_def object_closes_h5)

lemma object_closes_createSimpleDataset_plain [simp]:
  "object_closes (snd (createSimpleDataset_plain env l t n s b w)) = object_closes w"
  by (simp add: createSimpleDataset_plain_def case_prod_beta Let_def object_closes_h5)

lemma object_closes_createSimpleDataset_compressed [simp]:
  "object_closes (snd (createSimpleDataset_compressed env l t n nd dv s b a w))
     = object_closes w"
  by (simp add: createSimpleDataset_compressed_def case_prod_beta Let_def object_closes_h5)

lemma object_closes_createSimpleDataset [simp]:
  "object_closes (snd (createSimpleDataset env l t n nd dv b c w)) = object_closes w"
  by (cases c) (simp_all add: createSimpleDataset_def case_prod_beta Let_def object_closes_h5)

lemma object_closes_doWriteHdf5Datatype [simp]:
  "object_closes (snd (snd (doWriteHdf5Datatype env f pn p node ch w))) = object_closes w"
  by (simp add: doWriteHdf5Datatype_def commitType_def case_prod_beta Let_def object_closes_h5)

lemma resolve_typeId_hdfId: "hdfId (fst (resolve_typeId env node w)) = hdfId node"
  by (simp add: resolve_typeId_def case_prod_beta)

lemma write_switch_object_closes:
  assumes "write_switch env file_id gid carg parentNode parentName node childName w
             = Inr (status, node1, w1)"
    and "unbound node"
  shows "object_closes w1 = object_closes w"
proof (cases "tmpLocId gid parentNode parentName")
  case (Inl f)
  then show ?thesis
    using assms(1) object_closes_doWriteHdf5Datatype
                     [of env file_id parentNode parentName node childName w]
    by (cases "type node")
       (auto simp: write_switch_def doWriteHdf5Attribute_def doWriteHdf5Group_def
          doWriteHdf5Dataset_def doWriteHdf5Reference_def split: if_splits)
next
  case (Inr loc)
  show ?thesis
  proof (cases "type node")
    case ATTRIBUTE_ID
    obtain n1 wr where r: "resolve_typeId env node w = (n1, wr)"
      by (cases "resolve_typeId env node w")
    obtain r2 w2 where a: "write_attribute_data env loc n1 childName wr = (r2, w2)"
      by (cases "write_attribute_data env loc n1 childName wr")
    have c1: "object_closes wr = object_closes w"
      using object_closes_resolve_typeId [of env node w] r by simp
    have c2: "object_closes w2 = object_closes wr"
      using object_closes_write_attribute_data [of env loc n1 childName wr] a by simp
    show ?thesis
      using assms(1) Inr ATTRIBUTE_ID r a c1 c2
      by (auto simp: write_switch_def doWriteHdf5Attribute_def split: if_splits)
  next
    case GROUP_ID
    then show ?thesis
      using assms Inr
      by (auto simp: write_switch_def doWriteHdf5Group_def case_prod_beta Let_def unbound_def
               object_closes_group_close object_closes_h5 split: if_splits)
  next
    case DATASET_ID
    obtain n1 wr where r: "resolve_typeId env node w = (n1, wr)"
      by (cases "resolve_typeId env node w")
    have neg: "hdfId n1 < 0"
      using assms(2) DATASET_ID resolve_typeId_hdfId [of env node w] r
      by (simp add: unbound_def)
    have c1: "object_closes wr = object_closes w"
      using object_closes_resolve_typeId [of env node w] r by simp
    have c2: "object_closes (snd (createSimpleDataset env loc (typeId n1) childName (ndims n1)
                 (buf_hsizes wr (dims n1)) (buf_bytes wr (data n1)) c wr)) = object_closes wr"
      for c
      by simp
    show ?thesis
      using assms(1) Inr DATASET_ID r neg c1 c2
      by (auto simp: write_switch_def doWriteHdf5Dataset_def case_prod_beta Let_def
               HL_H5D_CLOSE_def split: if_splits)
  next
    case TYPE_ID
    then show ?thesis
      using assms(1) object_closes_doWriteHdf5Datatype
                     [of env file_id parentNode parentName node childName w]
      by (auto simp: write_switch_def)
  next
    case REFERENCE_ID
    obtain r2 w2 where a:
      "createReference env loc file_id childName (buf_bytes w (data node)) w = (r2, w2)"
      by (cases "createReference env loc file_id childName (buf_bytes w (data node)) w")
    have c2: "object_closes w2 = object_closes w"
      using object_closes_createReference [of env loc file_id childName "buf_bytes w (data node)" w]
            a by simp
    show ?thesis
      using assms(1) Inr REFERENCE_ID a c2
      by (auto simp: write_switch_def doWriteHdf5Reference_def split: if_splits)
  next
    case UNDEFINED_ID
    then show ?thesis using assms(1) by (auto simp: write_switch_def)
  qed
qed

lemma write_nodes_object_closes:
  assumes "i < length todo"
    and "extractParentChildName (todo ! i) = Some (p, c)"
    and "p \<noteq> ''''"
    and "p \<notin> name ` set (visited @ todo)"
    and "list_all unbound (take i todo)"
    and "write_nodes env file_id gid carg pn visited todo w = Inr (st, ns, w')"
  shows "object_closes w' = object_closes w"
  using assms
proof (induction todo arbitrary: i visited pn w)
  case Nil
  then show ?case by simp
next
  case (Cons node rest)
  show ?case
  proof (cases i)
    case 0
    then have "getHL_Node (visited @ node # rest) p = None"
      using Cons.prems(4) by (simp add: getHL_Node_None)
    then have "write_nodes env file_id gid carg pn visited (node # rest) w
                 = Inr (0, visited @ node # rest, w)"
      using 0 Cons.prems(2,3) write_nodes_no_parent [of node p c visited rest]
      by (simp del: write_nodes.simps)
    then show ?thesis using Cons.prems(6) by simp
  next
    case (Suc j)
    then have ub: "unbound node" and ubs: "list_all unbound (take j rest)"
      using Cons.prems(5) by simp_all
    show ?thesis
    proof (cases "extractParentChildName node")
      case None
      then show ?thesis
        using Cons.prems(6) by (simp add: write_nodes_no_split del: write_nodes.simps)
    next
      case (Some pc)
      obtain parentName childName where pc: "pc = (parentName, childName)"
        by (cases pc)
      define pn1 where "pn1 = (if parentName \<noteq> ''''
                               then getHL_Node (visited @ node # rest) parentName else pn)"
      show ?thesis
      proof (cases "parentName \<noteq> '''' \<and> getHL_Node (visited @ node # rest) parentName = None")
        case True
        then have "write_nodes env file_id gid carg pn visited (node # rest) w
                     = Inr (0, visited @ node # rest, w)"
          using Some pc write_nodes_no_parent [of node parentName childName visited rest]
          by (simp del: write_nodes.simps)
        then show ?thesis using Cons.prems(6) by simp
      next
        case False
        have ok: "parentName \<noteq> '''' \<longrightarrow> getHL_Node (visited @ node # rest) parentName \<noteq> None"
          using False by auto
        then have ok1: "parentName \<noteq> '''' \<longrightarrow> pn1 \<noteq> None"
          by (simp add: pn1_def)
        obtain status node1 w1 where
          sw: "write_switch env file_id gid carg pn1 parentName node childName w
                 = Inr (status, node1, w1)"
          using write_switch_no_fault [OF ok1, of env file_id gid carg node childName w]
          by (cases "write_switch env file_id gid carg pn1 parentName node childName w") auto
        have nm: "name node1 = name node"
          using write_switch_name [OF sw] .
        have c1: "object_closes w1 = object_closes w"
          using write_switch_object_closes [OF sw ub] .
        have unfold: "write_nodes env file_id gid carg pn visited (node # rest) w
             = (if status = 0 then Inr (0, visited @ node1 # rest, w1)
                else write_nodes env file_id gid carg pn1 (visited @ [node1]) rest w1)"
          using write_nodes_step [OF _ ok, of childName env file_id gid carg pn w status node1 w1]
                Some pc sw
          by (simp add: pn1_def del: write_nodes.simps)
        show ?thesis
        proof (cases "status = 0")
          case True
          then show ?thesis
            using unfold c1 Cons.prems(6) by simp
        next
          case nz: False
          have j: "j < length rest" using Cons.prems(1) Suc by simp
          have e: "extractParentChildName (rest ! j) = Some (p, c)"
            using Cons.prems(2) Suc by simp
          have notin: "p \<notin> name ` set ((visited @ [node1]) @ rest)"
            using Cons.prems(4) nm by simp
          have r: "write_nodes env file_id gid carg pn1 (visited @ [node1]) rest w1
                     = Inr (st, ns, w')"
            using unfold nz Cons.prems(6) by simp
          from Cons.IH [OF j e Cons.prems(3) notin ubs r]
          show ?thesis using c1 by simp
        qed
      qed
    qed
  qed
qed

subsection \<open>Compression settings in \<^verbatim>\<open>createSimpleDataset\<close>\<close>

text \<open>
  Whatever the numbering of the selectors, a compression argument whose selector is not
  \<^verbatim>\<open>CT_SZLIB\<close> leaves the test with its selector overwritten: by 1, with the test true,
  when \<^verbatim>\<open>CT_ZLIB\<close> is not numbered 0 (the level does not matter, since every level is
  above 0 or at most 9).
\<close>

lemma compression_test_overwrites:
  assumes "ctype (comprs w a) \<noteq> CT_SZLIB env" and "CT_ZLIB env \<noteq> 0"
  shows "compression_test env a w =
           (True, w\<lparr>comprs := (comprs w)(a := (comprs w a)\<lparr>ctype := 1\<rparr>)\<rparr>)"
proof -
  have "level (comprs w a) > 0 \<or> level (comprs w a) \<le> 9" by arith
  then show ?thesis using assms by (simp add: compression_test_def Let_def)
qed

text \<open>
  Claim C3 (the code departs from it). A scalar dataset is written with a call-level
  compression argument whose selector is none and whose level is 0, against an engine
  that accepts every call. The write succeeds, but a dataset creation property list is
  made, chunked and given deflate at level 0, and afterwards the selector of the
  caller's argument is the code of zlib.
\<close>

theorem writeHL_NodeList_selector_none:
  "selector_at 0 empty_world = CT_NONE_code \<and>
   status_of (writeHL_NodeList (accepting_env 1) one_dataset None (Some 0) empty_world) = Some 1 \<and>
   map_option calls
     (world_of (writeHL_NodeList (accepting_env 1) one_dataset None (Some 0) empty_world)) =
     Some [CreateHlHdfFile ''f.h5'' None, H5Gopen 1 ''.'', H5Screate_simple 0 None,
           H5Pcreate_DATASET_CREATE, H5Pset_chunk 4 0 None, H5Pset_deflate 4 0,
           H5Dcreate 2 ''d'' 5 3 (Some 4), H5Sclose 3, H5Pclose 4, H5Gclose 2, H5Fclose 1] \<and>
   map_option (selector_at 0)
     (world_of (writeHL_NodeList (accepting_env 1) one_dataset None (Some 0) empty_world)) =
     Some (CT_ZLIB (accepting_env 1))"
  by code_simp

subsection \<open>Committing a named type\<close>

text \<open>
  Once the commit has succeeded, \<^verbatim>\<open>doWriteHdf5Datatype\<close> returns 1 whatever
  \<^verbatim>\<open>H5Tcommitted\<close> answers.
\<close>

lemma doWriteHdf5Datatype_ignores_status:
  assumes "0 \<le> loc_id"
    and "0 \<le> fst (engine env (est w) (H5Tcommit loc_id (name node) (hdfId node)))"
  shows "fst (doWriteHdf5Datatype env loc_id parentNode parentName node childName w) = 1"
  using assms
  by (simp add: doWriteHdf5Datatype_def commitType_def h5_def Let_def case_prod_beta)

text \<open>
  Claim C4 (the code departs from it). A list holding one named type is written against
  an engine that accepts the commit and then answers 0, "not committed", to
  \<^verbatim>\<open>H5Tcommitted\<close>: the status is asked for, and the write returns 1.
\<close>

theorem writeHL_NodeList_uncommitted:
  "status_of (writeHL_NodeList (accepting_env 0) one_datatype None None empty_world) = Some 1 \<and>
   map_option calls
     (world_of (writeHL_NodeList (accepting_env 0) one_datatype None None empty_world)) =
     Some [CreateHlHdfFile ''f.h5'' None, H5Gopen 1 ''.'', H5Tcommit 1 ''/t'' 7,
           H5Tcommitted 7, H5Gclose 2, H5Fclose 1] \<and>
   fst (engine (accepting_env 0) 2 (H5Tcommitted 7)) = 0"
  by code_simp

subsection \<open>Appending a dataset\<close>

text \<open>
  In the update, a dataset is appended through \<^verbatim>\<open>gid\<close>, which is -1: with an engine that
  refuses to open a group on that handle, the dispatch of a dataset fails.
\<close>

lemma open_parent_group_closed_handle:
  assumes "\<forall>s p. fst (engine env s (H5Gopen (- 1) p)) < 0"
  shows "fst (open_parent_group env (- 1) parentName w) < 0"
  using assms by (simp add: open_parent_group_def h5_def case_prod_beta)

lemma update_switch_dataset_fails:
  assumes "type node = DATASET_ID" and "\<forall>s p. fst (engine env s (H5Gopen (- 1) p)) < 0"
  shows "fst (update_switch env file_id (- 1) compression_arg parentNode parentName node
                childName w) = 0"
proof -
  have "fst (doAppendHdf5Dataset env (- 1) parentNode parentName node childName c w) = 0" for c
    using open_parent_group_closed_handle [OF assms(2), of parentName w]
    by (simp add: doAppendHdf5Dataset_def case_prod_beta)
  then show ?thesis using assms(1) by (simp add: update_switch_def)
qed

text \<open>
  Claim C2 (the code departs from it). A new dataset directly under the root is appended
  to a file that the engine opens as handle 1, with no compression argument and with one:
  the parent is asked for on handle -1, not on the file, and the update returns 0. A new
  group appended to the same file has its parent opened on the file handle and succeeds.
\<close>

theorem updateHL_NodeList_dataset_fails:
  "fst (updateHL_NodeList (accepting_env 1) one_dataset None empty_world) = 0 \<and>
   calls (snd (snd (updateHL_NodeList (accepting_env 1) one_dataset None empty_world))) =
     [OpenHlHdfFile ''f.h5'' ''rw'', H5Gopen (- 1) ''/'', H5Fclose 1] \<and>
   fst (updateHL_NodeList (accepting_env 1) one_dataset (Some 0) empty_world) = 0 \<and>
   calls (snd (snd (updateHL_NodeList (accepting_env 1) one_dataset (Some 0) empty_world))) =
     [OpenHlHdfFile ''f.h5'' ''rw'', H5Gopen (- 1) ''/'', H5Fclose 1] \<and>
   fst (updateHL_NodeList (accepting_env 1) one_group None empty_world) = 1 \<and>
   calls (snd (snd (updateHL_NodeList (accepting_env 1) one_group None empty_world))) =
     [OpenHlHdfFile ''f.h5'' ''rw'', H5Gopen 1 ''/'', H5Gcreate 2 ''g'', H5Gclose 2,
      H5Gclose 3, H5Fclose 1]"
  by code_simp

subsection \<open>Marks after an update\<close>

text \<open>The three append functions reset the mark of the node they appended.\<close>

lemma doAppendHdf5Attribute_mark:
  "doAppendHdf5Attribute env file_id parentNode parentName node childName w = (1, node', w')
   \<Longrightarrow> mark node' = NMARK_ORIGINAL"
  by (auto simp: doAppendHdf5Attribute_def Let_def split: prod.splits if_splits)

lemma doAppendHdf5Group_mark:
  "doAppendHdf5Group env file_id parentNode parentName node childName w = (1, node', w')
   \<Longrightarrow> mark node' = NMARK_ORIGINAL"
  by (auto simp: doAppendHdf5Group_def Let_def split: prod.splits if_splits)

lemma doAppendHdf5Dataset_mark:
  "doAppendHdf5Dataset env file_id parentNode parentName node childName c w = (1, node', w')
   \<Longrightarrow> mark node' = NMARK_ORIGINAL"
  by (auto simp: doAppendHdf5Dataset_def Let_def split: prod.splits if_splits)

text \<open>
  Claim C6 (the code departs from it). A new named type and a new reference are each
  given to an update that succeeds. The type is committed and the reference is not
  written at all (the update has no case for it); both nodes still have the mark Created
  afterwards.
\<close>

theorem updateHL_NodeList_mark_kept:
  "fst (updateHL_NodeList (accepting_env 1) one_datatype None empty_world) = 1 \<and>
   map mark (nodes (fst (snd (updateHL_NodeList (accepting_env 1) one_datatype None empty_world))))
     = [NMARK_CREATED] \<and>
   calls (snd (snd (updateHL_NodeList (accepting_env 1) one_datatype None empty_world))) =
     [OpenHlHdfFile ''f.h5'' ''rw'', H5Tcommit 1 ''/t'' 7, H5Tcommitted 7, H5Fclose 1] \<and>
   fst (updateHL_NodeList (accepting_env 1) one_reference None empty_world) = 1 \<and>
   map mark (nodes (fst (snd (updateHL_NodeList (accepting_env 1) one_reference None empty_world))))
     = [NMARK_CREATED] \<and>
   calls (snd (snd (updateHL_NodeList (accepting_env 1) one_reference None empty_world))) =
     [OpenHlHdfFile ''f.h5'' ''rw'', H5Fclose 1]"
  by code_simp

subsection \<open>A parent that is not in the list\<close>

lemma calls_h5: "calls (snd (h5 env c w)) = calls w @ [c]"
  by (simp add: h5_def case_prod_beta)

text \<open>
  Claim C7 (as amended). When the path of a node of the list has a non-empty parent
  component and no node of the list has that parent path, \<^verbatim>\<open>writeHL_NodeList\<close> returns 0;
  that node and the nodes after it are as they were; when the file and its root group
  were opened, the last two calls of the engine close the root group and the file (the
  file alone, when the root group could not be opened); and the loop, on reaching the
  node, stops at once with no call and no change. Not every handle that the call opened
  is closed: when the group and dataset nodes before the node enter the call bound to no
  storage object (\<^verbatim>\<open>hdfId\<close> negative, as \<^verbatim>\<open>newHL_Node\<close> leaves it), the calls that close a
  group or a dataset, among all calls made up to the end of the write, are those made
  before the write followed by the \<^verbatim>\<open>H5Gclose\<close> of the root group alone: the call closes
  no group or dataset handle other than the root group's, and the handles created for
  the groups and datasets written before the node are left open.
\<close>

theorem writeHL_NodeList_missing_parent:
  assumes "i < length (nodes nl)"
    and "extractParentChildName (nodes nl ! i) = Some (parentName, childName)"
    and "parentName \<noteq> ''''"
    and "getHL_Node (nodes nl) parentName = None"
  shows "status_of (writeHL_NodeList env nl property carg w) = Some 0 \<and>
         (\<exists>ns. nodes_of (writeHL_NodeList env nl property carg w) = Some ns \<and>
               length ns = length (nodes nl) \<and> drop i ns = drop i (nodes nl)) \<and>
         (\<forall>file_id w1 gid w2.
             h5 env (CreateHlHdfFile (filename nl) property) w = (file_id, w1) \<and> 0 \<le> file_id \<and>
             h5 env (H5Gopen file_id ''.'') w1 = (gid, w2) \<and> 0 \<le> gid \<longrightarrow>
             (\<exists>w' pre. world_of (writeHL_NodeList env nl property carg w) = Some w' \<and>
                       calls w' = pre @ [H5Gclose gid, H5Fclose file_id] \<and>
                       (list_all unbound (take i (nodes nl)) \<longrightarrow>
                          object_closes w' = object_closes w @ [H5Gclose gid]))) \<and>
         (\<forall>file_id w1 gid w2.
             h5 env (CreateHlHdfFile (filename nl) property) w = (file_id, w1) \<and> 0 \<le> file_id \<and>
             h5 env (H5Gopen file_id ''.'') w1 = (gid, w2) \<and> gid < 0 \<longrightarrow>
             (\<exists>w'. world_of (writeHL_NodeList env nl property carg w) = Some w' \<and>
                   calls w' = calls w2 @ [H5Fclose file_id])) \<and>
         (\<forall>file_id gid pn visited rest w0.
             getHL_Node (visited @ nodes nl ! i # rest) parentName = None \<longrightarrow>
             write_nodes env file_id gid carg pn visited (nodes nl ! i # rest) w0
               = Inr (0, visited @ nodes nl ! i # rest, w0))"
proof -
  obtain file_id w1 where f: "h5 env (CreateHlHdfFile (filename nl) property) w = (file_id, w1)"
    by (cases "h5 env (CreateHlHdfFile (filename nl) property) w")
  obtain gid w2 where g: "h5 env (H5Gopen file_id ''.'') w1 = (gid, w2)"
    by (cases "h5 env (H5Gopen file_id ''.'') w1")
  have notin: "parentName \<notin> name ` set ([] @ nodes nl)"
    using assms(4) by (simp add: getHL_Node_None)
  from write_nodes_missing_parent [OF assms(1,2,3) notin, of env file_id gid carg None w2]
  obtain ns w3 where
    loop: "write_nodes env file_id gid carg None [] (nodes nl) w2 = Inr (0, ns, w3)"
    and nm: "map name ns = map name (nodes nl)" and dr: "drop i ns = drop i (nodes nl)"
    by auto
  have len: "length ns = length (nodes nl)"
    using nm by (metis length_map)
  have c0: "object_closes w2 = object_closes w"
    using f g object_closes_h5 [of env "CreateHlHdfFile (filename nl) property" w]
          object_closes_h5 [of env "H5Gopen file_id ''.''" w1]
    by simp
  have cl: "object_closes w3 = object_closes w" if "list_all unbound (take i (nodes nl))"
    using write_nodes_object_closes [OF assms(1,2,3) notin that loop] c0 by simp
  have stop: "write_nodes env fid g' carg pn visited (nodes nl ! i # rest) w0
               = Inr (0, visited @ nodes nl ! i # rest, w0)"
    if "getHL_Node (visited @ nodes nl ! i # rest) parentName = None"
    for fid g' pn visited rest w0
    using that assms(2,3) write_nodes_no_parent [of "nodes nl ! i" parentName childName visited rest]
    by (simp del: write_nodes.simps)
  show ?thesis
  proof (cases "file_id < 0")
    case True
    then show ?thesis
      using f stop
      by (simp add: writeHL_NodeList_def status_of_def nodes_of_def world_of_def
            del: write_nodes.simps)
  next
    case fok: False
    show ?thesis
    proof (cases "gid < 0")
      case True
      then show ?thesis
        using f g fok stop
        by (simp add: writeHL_NodeList_def status_of_def nodes_of_def world_of_def
              HL_H5F_CLOSE_def calls_h5 del: write_nodes.simps)
    next
      case False
      then show ?thesis
        using f g fok loop len dr stop cl
        by (simp add: writeHL_NodeList_def status_of_def nodes_of_def world_of_def
              HL_H5F_CLOSE_def HL_H5G_CLOSE_def HL_H5T_CLOSE_def calls_h5 object_closes_h5
              del: write_nodes.simps)
    qed
  qed
qed

theorem writeHL_NodeList_missing_parent_witness:
  "1 < length (nodes orphan_dataset) \<and>
   extractParentChildName (nodes orphan_dataset ! 1) = Some (''/x'', ''d'') \<and>
   ''/x'' \<noteq> '''' \<and>
   getHL_Node (nodes orphan_dataset) ''/x'' = None \<and>
   list_all unbound (take 1 (nodes orphan_dataset)) \<and>
   status_of (writeHL_NodeList (accepting_env 1) orphan_dataset None None empty_world) = Some 0 \<and>
   map_option calls
     (world_of (writeHL_NodeList (accepting_env 1) orphan_dataset None None empty_world)) =
     Some [CreateHlHdfFile ''f.h5'' None, H5Gopen 1 ''.'', H5Gcreate 2 ''g'', H5Gclose 2,
           H5Fclose 1] \<and>
   map_option object_closes
     (world_of (writeHL_NodeList (accepting_env 1) orphan_dataset None None empty_world)) =
     Some [H5Gclose 2]"
proof -
  have h1: "1 < length (nodes orphan_dataset)" by code_simp
  have h2: "extractParentChildName (nodes orphan_dataset ! 1) = Some (''/x'', ''d'')"
    by code_simp
  have h3: "''/x'' \<noteq> ''''" by simp
  have h4: "getHL_Node (nodes orphan_dataset) ''/x'' = None" by code_simp
  have h5: "list_all unbound (take 1 (nodes orphan_dataset))" by code_simp
  have f: "h5 (accepting_env 1) (CreateHlHdfFile (filename orphan_dataset) None) empty_world
             = (1, snd (h5 (accepting_env 1) (CreateHlHdfFile (filename orphan_dataset) None)
                          empty_world))"
    by (simp add: h5_def accepting_env_def accepting_engine_def empty_world_def)
  have g: "h5 (accepting_env 1) (H5Gopen 1 ''.'')
             (snd (h5 (accepting_env 1) (CreateHlHdfFile (filename orphan_dataset) None)
                     empty_world))
           = (2, snd (h5 (accepting_env 1) (H5Gopen 1 ''.'')
                (snd (h5 (accepting_env 1) (CreateHlHdfFile (filename orphan_dataset) None)
                        empty_world))))"
    by (simp add: h5_def accepting_env_def accepting_engine_def empty_world_def)
  have e: "object_closes empty_world = []"
    by (simp add: object_closes_def empty_world_def)
  note t = writeHL_NodeList_missing_parent
             [OF h1 h2 h3 h4, of "accepting_env 1" None None empty_world]
  have c: "status_of (writeHL_NodeList (accepting_env 1) orphan_dataset None None empty_world)
             = Some 0"
    using t by blast
  have "\<exists>w' pre. world_of (writeHL_NodeList (accepting_env 1) orphan_dataset None None empty_world)
             = Some w' \<and>
           calls w' = pre @ [H5Gclose 2, H5Fclose 1] \<and>
           (list_all unbound (take 1 (nodes orphan_dataset)) \<longrightarrow>
              object_closes w' = object_closes empty_world @ [H5Gclose 2])"
    using t [THEN conjunct2, THEN conjunct2, THEN conjunct1, rule_format, OF conjI [OF f conjI [OF _ conjI [OF g]]]]
    by simp
  then have oc: "map_option object_closes
     (world_of (writeHL_NodeList (accepting_env 1) orphan_dataset None None empty_world)) =
     Some [H5Gclose 2]"
    using h5 e by auto
  have v: "map_option calls
     (world_of (writeHL_NodeList (accepting_env 1) orphan_dataset None None empty_world)) =
     Some [CreateHlHdfFile ''f.h5'' None, H5Gopen 1 ''.'', H5Gcreate 2 ''g'', H5Gclose 2,
           H5Fclose 1]"
    by code_simp
  show ?thesis using h1 h2 h3 h4 h5 c v oc by blast
qed

text \<open>
  Claim C7 as stated fails where it has all handles opened by the call closed. A group
  \<^verbatim>\<open>/g\<close> followed by a dataset \<^verbatim>\<open>/x/d\<close> whose parent is not in the list: the write
  returns 0, but the handle 3 that \<^verbatim>\<open>H5Gcreate\<close> returned for the group is closed by
  no call, and is still the handle of the group's node afterwards.
\<close>

theorem writeHL_NodeList_handle_left_open:
  "status_of (writeHL_NodeList (accepting_env 1) orphan_dataset None None empty_world) = Some 0 \<and>
   map_option calls
     (world_of (writeHL_NodeList (accepting_env 1) orphan_dataset None None empty_world)) =
     Some [CreateHlHdfFile ''f.h5'' None, H5Gopen 1 ''.'', H5Gcreate 2 ''g'', H5Gclose 2,
           H5Fclose 1] \<and>
   fst (engine (accepting_env 1) 2 (H5Gcreate 2 ''g'')) = 3 \<and>
   map_option (map hdfId)
     (nodes_of (writeHL_NodeList (accepting_env 1) orphan_dataset None None empty_world)) =
     Some [3, - 1]"
  by code_simp

text \<open>
  The condition on the nodes before the one without parent is needed. \<^verbatim>\<open>doWriteHdf5Group\<close>
  first closes the handle that the node holds: when the second group of the list enters
  the call holding the handle 3, which is the one the engine has just given to the first
  group, that handle is closed while the first group's node keeps it.
\<close>

lemma writeHL_NodeList_closes_stale_handle:
  "list_all unbound (take 2 (nodes stale_handle)) = False \<and>
   status_of (writeHL_NodeList (accepting_env 1) stale_handle None None empty_world) = Some 0 \<and>
   map_option object_closes
     (world_of (writeHL_NodeList (accepting_env 1) stale_handle None None empty_world)) =
     Some [H5Gclose 3, H5Gclose 2] \<and>
   map_option (map hdfId)
     (nodes_of (writeHL_NodeList (accepting_env 1) stale_handle None None empty_world)) =
     Some [3, 4, - 1]"
  by code_simp

subsection \<open>Nodes of unrecognized type\<close>




subsection \<open>What an update leaves alone\<close>

lemma same_buffers_refl [simp]: "same_buffers w w"
  by (simp add: same_buffers_def)

lemma same_buffers_trans: "same_buffers w w1 \<Longrightarrow> same_buffers w1 w2 \<Longrightarrow> same_buffers w w2"
  by (simp add: same_buffers_def)

lemma same_buffers_h5 [simp]: "same_buffers w (snd (h5 env c w')) = same_buffers w w'"
  by (simp add: same_buffers_def h5_def case_prod_beta)

lemma same_buffers_close [simp]:
  "same_buffers w (HL_H5F_CLOSE env x w') = same_buffers w w'"
  "same_buffers w (HL_H5G_CLOSE env x w') = same_buffers w w'"
  "same_buffers w (HL_H5D_CLOSE env x w') = same_buffers w w'"
  "same_buffers w (HL_H5S_CLOSE env x w') = same_buffers w w'"
  "same_buffers w (HL_H5A_CLOSE env x w') = same_buffers w w'"
  "same_buffers w (HL_H5T_CLOSE env x w') = same_buffers w w'"
  "same_buffers w (HL_H5P_CLOSE env x w') = same_buffers w w'"
  by (simp_all add: HL_H5F_CLOSE_def HL_H5G_CLOSE_def HL_H5D_CLOSE_def HL_H5S_CLOSE_def
        HL_H5A_CLOSE_def HL_H5T_CLOSE_def HL_H5P_CLOSE_def)

lemma same_buffers_compression_test [simp]:
  "same_buffers w (snd (compression_test env a w')) = same_buffers w w'"
  by (simp add: compression_test_def same_buffers_def Let_def)

lemma same_buffers_attribute_fail [simp]:
  "same_buffers w (snd (attribute_fail env s a st w')) = same_buffers w w'"
  by (simp add: attribute_fail_def)

lemma same_buffers_writeScalarDataAttribute [simp]:
  "same_buffers w (snd (writeScalarDataAttribute env l t n b w')) = same_buffers w w'"
  by (simp add: writeScalarDataAttribute_def case_prod_beta Let_def)

lemma same_buffers_writeSimpleDataAttribute [simp]:
  "same_buffers w (snd (writeSimpleDataAttribute env l t n nd dv b w')) = same_buffers w w'"
  by (simp add: writeSimpleDataAttribute_def case_prod_beta Let_def)

lemma same_buffers_write_attribute_data [simp]:
  "same_buffers w (snd (write_attribute_data env l node n w')) = same_buffers w w'"
  by (simp add: write_attribute_data_def)

lemma same_buffers_resolve_typeId [simp]:
  "same_buffers w (snd (resolve_typeId env node w')) = same_buffers w w'"
  by (simp add: resolve_typeId_def case_prod_beta)

lemma same_buffers_createSimpleDataset_done [simp]:
  "same_buffers w (snd (createSimpleDataset_done env s p d w')) = same_buffers w w'"
  by (simp add: createSimpleDataset_done_def)

lemma same_buffers_createSimpleDataset_write [simp]:
  "same_buffers w (snd (createSimpleDataset_write env s p d t b w')) = same_buffers w w'"
  by (simp add: createSimpleDataset_write_def)

lemma same_buffers_createSimpleDataset_plain [simp]:
  "same_buffers w (snd (createSimpleDataset_plain env l t n s b w')) = same_buffers w w'"
  by (simp add: createSimpleDataset_plain_def case_prod_beta Let_def)

lemma same_buffers_createSimpleDataset_compressed [simp]:
  "same_buffers w (snd (createSimpleDataset_compressed env l t n nd dv s b a w'))
     = same_buffers w w'"
  by (simp add: createSimpleDataset_compressed_def case_prod_beta Let_def)

lemma same_buffers_createSimpleDataset [simp]:
  "same_buffers w (snd (createSimpleDataset env l t n nd dv b c w')) = same_buffers w w'"
  by (cases c) (simp_all add: createSimpleDataset_def case_prod_beta Let_def)

lemma same_buffers_doAppendHdf5Attribute_open [simp]:
  "same_buffers w (snd (snd (doAppendHdf5Attribute_open env f p w'))) = same_buffers w w'"
  by (simp add: doAppendHdf5Attribute_open_def case_prod_beta Let_def)

lemma same_buffers_doAppendHdf5Attribute_fail [simp]:
  "same_buffers w (doAppendHdf5Attribute_fail env t l w') = same_buffers w w'"
  by (simp add: doAppendHdf5Attribute_fail_def)

lemma same_buffers_doAppendHdf5Attribute [simp]:
  "same_buffers w (snd (snd (doAppendHdf5Attribute env f pn p node ch w'))) = same_buffers w w'"
  by (simp add: doAppendHdf5Attribute_def case_prod_beta Let_def)

lemma same_buffers_open_parent_group [simp]:
  "same_buffers w (snd (open_parent_group env f p w')) = same_buffers w w'"
  by (simp add: open_parent_group_def)

lemma same_buffers_doAppendHdf5Group [simp]:
  "same_buffers w (snd (snd (doAppendHdf5Group env f pn p node ch w'))) = same_buffers w w'"
  by (simp add: doAppendHdf5Group_def case_prod_beta Let_def)

lemma same_buffers_doAppendHdf5Dataset [simp]:
  "same_buffers w (snd (snd (doAppendHdf5Dataset env f pn p node ch c w'))) = same_buffers w w'"
  by (simp add: doAppendHdf5Dataset_def case_prod_beta Let_def)

lemma same_buffers_doWriteHdf5Datatype [simp]:
  "same_buffers w (snd (snd (doWriteHdf5Datatype env f pn p node ch w'))) = same_buffers w w'"
  by (simp add: doWriteHdf5Datatype_def commitType_def case_prod_beta Let_def)

lemma same_buffers_update_switch [simp]:
  "same_buffers w (snd (snd (update_switch env f g c pn p node ch w'))) = same_buffers w w'"
  by (cases "type node") (simp_all add: update_switch_def)

lemma update_nodes_frame:
  "update_nodes env file_id gid carg pn visited todo w = (status, ns, w') \<Longrightarrow>
     length ns = length visited + length todo \<and> take (length visited) ns = visited \<and>
     (\<forall>i < length todo. mark (todo ! i) \<noteq> NMARK_CREATED \<longrightarrow>
        ns ! (length visited + i) = todo ! i) \<and>
     same_buffers w w'"
proof (induction todo arbitrary: visited pn w)
  case Nil
  then show ?case by auto
next
  case (Cons node rest)
  have later: "length ns = length visited + length (node # rest) \<and>
      take (length visited) ns = visited \<and>
      (\<forall>i<length (node # rest). mark ((node # rest) ! i) \<noteq> NMARK_CREATED \<longrightarrow>
          ns ! (length visited + i) = (node # rest) ! i) \<and> same_buffers w w'"
    if rec: "update_nodes env file_id gid carg pn1 (visited @ [node1]) rest w1 = (status, ns, w')"
      and sb: "same_buffers w w1"
      and same: "mark node \<noteq> NMARK_CREATED \<longrightarrow> node1 = node"
    for pn1 node1 w1
  proof -
    from Cons.IH [OF rec] have
      l: "length ns = length (visited @ [node1]) + length rest" and
      t: "take (length (visited @ [node1])) ns = visited @ [node1]" and
      n: "\<forall>i<length rest. mark (rest ! i) \<noteq> NMARK_CREATED \<longrightarrow>
             ns ! (length (visited @ [node1]) + i) = rest ! i" and
      b: "same_buffers w1 w'"
      by auto
    have t1: "take (length visited) ns = visited"
      using t by (metis append_eq_conv_conj length_append_singleton take_Suc_conv_app_nth
          butlast_snoc butlast_take diff_Suc_1 l le_add1 length_append)
    have h: "ns ! length visited = node1"
      using t l by (metis length_append_singleton lessI nth_append_length nth_take)
    have b': "same_buffers w w'"
      using sb b by (rule same_buffers_trans)
    have "ns ! (length visited + i) = (node # rest) ! i"
      if "i < length (node # rest)" "mark ((node # rest) ! i) \<noteq> NMARK_CREATED" for i
    proof (cases i)
      case 0
      then show ?thesis using that same h by simp
    next
      case (Suc j)
      then show ?thesis using that n by simp
    qed
    then show ?thesis using l t1 b' by simp
  qed
  show ?case
  proof (cases "mark node = NMARK_CREATED")
    case False
    then have "update_nodes env file_id gid carg pn (visited @ [node]) rest w = (status, ns, w')"
      using Cons.prems by simp
    from later [OF this] show ?thesis by simp
  next
    case created: True
    show ?thesis
    proof (cases "extractParentChildName node")
      case None
      then have "ns = visited @ node # rest \<and> w' = w"
        using Cons.prems created by simp
      then show ?thesis by (auto simp: nth_append)
    next
      case (Some pc)
      obtain parentName childName where pc: "pc = (parentName, childName)"
        by (cases pc)
      define pn1 where "pn1 = (if parentName \<noteq> ''''
                               then getHL_Node (visited @ node # rest) parentName else pn)"
      show ?thesis
      proof (cases "parentName \<noteq> '''' \<and> pn1 = None")
        case True
        then have "ns = visited @ node # rest \<and> w' = w"
          using Cons.prems created Some pc pn1_def by (auto simp: Let_def split: if_splits)
        then show ?thesis by (auto simp: nth_append)
      next
        case False
        obtain st node1 w1 where
          sw: "update_switch env file_id gid carg pn1 parentName node childName w = (st, node1, w1)"
          by (cases "update_switch env file_id gid carg pn1 parentName node childName w")
        have sb: "same_buffers w w1"
          using same_buffers_update_switch
                  [of w env file_id gid carg pn1 parentName node childName w] sw
          by simp
        show ?thesis
        proof (cases "st = 0")
          case True
          then have "ns = visited @ node1 # rest \<and> w' = w1"
            using Cons.prems created Some pc pn1_def False sw
            by (auto simp: Let_def split: if_splits)
          then show ?thesis using sb created by (auto simp: nth_append nth_Cons split: nat.splits)
        next
          case nz: False
          then have "update_nodes env file_id gid carg pn1 (visited @ [node1]) rest w1
                       = (status, ns, w')"
            using Cons.prems created Some pc pn1_def False sw
            by (auto simp: Let_def split: if_splits)
          from later [OF this sb] created show ?thesis by simp
        qed
      qed
    qed
  qed
qed

text \<open>
  Compression settings are written only by the test of \<^verbatim>\<open>createSimpleDataset\<close>, at the
  address it is given.
\<close>

lemma comprs_h5 [simp]: "comprs (snd (h5 env c w)) = comprs w"
  by (simp add: h5_def case_prod_beta)

lemma comprs_close [simp]:
  "comprs (HL_H5F_CLOSE env x w) = comprs w"
  "comprs (HL_H5G_CLOSE env x w) = comprs w"
  "comprs (HL_H5D_CLOSE env x w) = comprs w"
  "comprs (HL_H5S_CLOSE env x w) = comprs w"
  "comprs (HL_H5A_CLOSE env x w) = comprs w"
  "comprs (HL_H5T_CLOSE env x w) = comprs w"
  "comprs (HL_H5P_CLOSE env x w) = comprs w"
  by (simp_all add: HL_H5F_CLOSE_def HL_H5G_CLOSE_def HL_H5D_CLOSE_def HL_H5S_CLOSE_def
        HL_H5A_CLOSE_def HL_H5T_CLOSE_def HL_H5P_CLOSE_def)

lemma comprs_attribute [simp]:
  "comprs (snd (attribute_fail env s a st w)) = comprs w"
  "comprs (snd (writeScalarDataAttribute env l t n b w)) = comprs w"
  "comprs (snd (writeSimpleDataAttribute env l t n nd dv b w)) = comprs w"
  "comprs (snd (write_attribute_data env l node n w)) = comprs w"
  "comprs (snd (resolve_typeId env node w)) = comprs w"
  by (simp_all add: attribute_fail_def writeScalarDataAttribute_def
        writeSimpleDataAttribute_def write_attribute_data_def resolve_typeId_def
        case_prod_beta Let_def)

lemma comprs_dataset_parts [simp]:
  "comprs (snd (createSimpleDataset_done env s p d w)) = comprs w"
  "comprs (snd (createSimpleDataset_write env s p d t b w)) = comprs w"
  "comprs (snd (createSimpleDataset_plain env l t n s b w)) = comprs w"
  "comprs (snd (createSimpleDataset_compressed env l t n nd dv s b a w)) = comprs w"
  by (simp_all add: createSimpleDataset_done_def createSimpleDataset_write_def
        createSimpleDataset_plain_def createSimpleDataset_compressed_def
        case_prod_beta Let_def)

lemma comprs_compression_test:
  "b \<noteq> a \<Longrightarrow> comprs (snd (compression_test env b w)) a = comprs w a"
  by (simp add: compression_test_def Let_def)

lemma comprs_createSimpleDataset:
  "c \<noteq> Some a \<Longrightarrow> comprs (snd (createSimpleDataset env l t n nd dv b c w)) a = comprs w a"
  by (cases c)
     (simp_all add: createSimpleDataset_def case_prod_beta Let_def comprs_compression_test)

lemma comprs_append [simp]:
  "comprs (snd (snd (doAppendHdf5Attribute_open env f p w))) = comprs w"
  "comprs (doAppendHdf5Attribute_fail env t l w) = comprs w"
  "comprs (snd (open_parent_group env f p w)) = comprs w"
  by (simp_all add: doAppendHdf5Attribute_open_def doAppendHdf5Attribute_fail_def
        open_parent_group_def case_prod_beta Let_def)

lemma comprs_append_nodes [simp]:
  "comprs (snd (snd (doAppendHdf5Attribute env f pn p node ch w))) = comprs w"
  "comprs (snd (snd (doAppendHdf5Group env f pn p node ch w))) = comprs w"
  "comprs (snd (snd (doWriteHdf5Datatype env f pn p node ch w))) = comprs w"
  by (simp_all add: doAppendHdf5Attribute_def doAppendHdf5Group_def doWriteHdf5Datatype_def
        commitType_def case_prod_beta Let_def)

lemma comprs_doAppendHdf5Dataset:
  "c \<noteq> Some a \<Longrightarrow>
   comprs (snd (snd (doAppendHdf5Dataset env f pn p node ch c w))) a = comprs w a"
  by (simp add: doAppendHdf5Dataset_def case_prod_beta Let_def comprs_createSimpleDataset)

lemma comprs_update_switch:
  assumes "carg \<noteq> Some a" and "compression node \<noteq> Some a"
  shows "comprs (snd (snd (update_switch env f g carg pn p node ch w))) a = comprs w a"
  using assms
  by (cases "type node") (simp_all add: update_switch_def comprs_doAppendHdf5Dataset)

lemma update_nodes_settings:
  assumes "update_nodes env file_id gid carg pn visited todo w = (status, ns, w')"
    and "carg \<noteq> Some a"
    and "\<forall>n \<in> set todo. mark n = NMARK_CREATED \<longrightarrow> compression n \<noteq> Some a"
  shows "comprs w' a = comprs w a"
  using assms
proof (induction todo arbitrary: visited pn w)
  case Nil
  then show ?case by simp
next
  case (Cons node rest)
  have rest: "\<forall>n \<in> set rest. mark n = NMARK_CREATED \<longrightarrow> compression n \<noteq> Some a"
    using Cons.prems(3) by simp
  show ?case
  proof (cases "mark node = NMARK_CREATED")
    case False
    then have "update_nodes env file_id gid carg pn (visited @ [node]) rest w = (status, ns, w')"
      using Cons.prems(1) by simp
    from Cons.IH [OF this Cons.prems(2) rest] show ?thesis .
  next
    case created: True
    then have cn: "compression node \<noteq> Some a"
      using Cons.prems(3) by simp
    show ?thesis
    proof (cases "extractParentChildName node")
      case None
      then show ?thesis using Cons.prems(1) created by simp
    next
      case (Some pc)
      obtain parentName childName where pc: "pc = (parentName, childName)"
        by (cases pc)
      define pn1 where "pn1 = (if parentName \<noteq> ''''
                               then getHL_Node (visited @ node # rest) parentName else pn)"
      show ?thesis
      proof (cases "parentName \<noteq> '''' \<and> pn1 = None")
        case True
        then show ?thesis
          using Cons.prems(1) created Some pc pn1_def by (auto simp: Let_def split: if_splits)
      next
        case False
        obtain st node1 w1 where
          sw: "update_switch env file_id gid carg pn1 parentName node childName w = (st, node1, w1)"
          by (cases "update_switch env file_id gid carg pn1 parentName node childName w")
        have k: "comprs w1 a = comprs w a"
          using comprs_update_switch [OF Cons.prems(2) cn, of env file_id gid pn1 parentName
                                        childName w] sw
          by simp
        show ?thesis
        proof (cases "st = 0")
          case True
          then have "w' = w1"
            using Cons.prems(1) created Some pc pn1_def False sw
            by (auto simp: Let_def split: if_splits)
          then show ?thesis using k by simp
        next
          case nz: False
          then have "update_nodes env file_id gid carg pn1 (visited @ [node1]) rest w1
                       = (status, ns, w')"
            using Cons.prems(1) created Some pc pn1_def False sw
            by (auto simp: Let_def split: if_splits)
          from Cons.IH [OF this Cons.prems(2) rest] k show ?thesis by simp
        qed
      qed
    qed
  qed
qed

text \<open>
  Claim C1. \<^verbatim>\<open>updateHL_NodeList\<close> writes only the nodes marked Created. The loop passes
  over a node with any other mark (Original, Changed or Selected) without a call to the
  engine and without a change; and whatever the update returns, every node that did not
  have the mark Created at entry is the same node afterwards, at the same place in the
  list, the byte buffers, dimension arrays and compound descriptors in memory are the
  same, and so are the compression settings at every address that is neither the
  compression argument of the call nor the compression pointer of a node marked Created.
\<close>

theorem updateHL_NodeList_only_created:
  "(mark node \<noteq> NMARK_CREATED \<longrightarrow>
      update_nodes env file_id gid carg pn visited (node # rest) w
        = update_nodes env file_id gid carg pn (visited @ [node]) rest w) \<and>
   (updateHL_NodeList env nl carg w = (status, nl', w') \<longrightarrow>
      length (nodes nl') = length (nodes nl) \<and>
      (\<forall>i < length (nodes nl). mark (nodes nl ! i) \<noteq> NMARK_CREATED \<longrightarrow>
         nodes nl' ! i = nodes nl ! i) \<and>
      bytes w' = bytes w \<and> hsizes w' = hsizes w \<and> descrs w' = descrs w \<and>
      (\<forall>a. carg \<noteq> Some a \<and>
           (\<forall>n \<in> set (nodes nl). mark n = NMARK_CREATED \<longrightarrow> compression n \<noteq> Some a) \<longrightarrow>
           comprs w' a = comprs w a))"
proof (intro conjI impI)
  show "update_nodes env file_id gid carg pn visited (node # rest) w
          = update_nodes env file_id gid carg pn (visited @ [node]) rest w"
    if "mark node \<noteq> NMARK_CREATED"
    using that by simp
next
  assume u: "updateHL_NodeList env nl carg w = (status, nl', w')"
  obtain fid w1 where f: "h5 env (OpenHlHdfFile (filename nl) ''rw'') w = (fid, w1)"
    by (cases "h5 env (OpenHlHdfFile (filename nl) ''rw'') w")
  have sb1: "same_buffers w w1"
    using same_buffers_h5 [of w env "OpenHlHdfFile (filename nl) ''rw''" w] f by simp
  have k1: "comprs w1 = comprs w"
    using comprs_h5 [of env "OpenHlHdfFile (filename nl) ''rw''" w] f by simp
  have "length (nodes nl') = length (nodes nl) \<and>
      (\<forall>i < length (nodes nl). mark (nodes nl ! i) \<noteq> NMARK_CREATED \<longrightarrow>
         nodes nl' ! i = nodes nl ! i) \<and> same_buffers w w' \<and>
      (\<forall>a. carg \<noteq> Some a \<and>
           (\<forall>n \<in> set (nodes nl). mark n = NMARK_CREATED \<longrightarrow> compression n \<noteq> Some a) \<longrightarrow>
           comprs w' a = comprs w a)"
  proof (cases "fid < 0")
    case True
    then show ?thesis using u f sb1 k1 by (auto simp: updateHL_NodeList_def)
  next
    case False
    obtain st ns w2 where
      l: "update_nodes env fid (- 1) carg None [] (nodes nl) w1 = (st, ns, w2)"
      by (cases "update_nodes env fid (- 1) carg None [] (nodes nl) w1")
    from update_nodes_frame [OF l] have
      fr: "length ns = length (nodes nl)"
          "\<forall>i < length (nodes nl). mark (nodes nl ! i) \<noteq> NMARK_CREATED \<longrightarrow> ns ! i = nodes nl ! i"
          "same_buffers w1 w2"
      by auto
    have "nl' = nl\<lparr>nodes := ns\<rparr>" and
         w': "w' = HL_H5T_CLOSE env (- 1) (HL_H5F_CLOSE env fid (HL_H5G_CLOSE env (- 1) w2))"
      using u f False l by (auto simp: updateHL_NodeList_def)
    moreover have "same_buffers w1 w'"
      using fr(3) unfolding w' by simp
    then have "same_buffers w w'"
      using sb1 same_buffers_trans by blast
    moreover have "comprs w' a = comprs w a"
      if "carg \<noteq> Some a"
        and "\<forall>n \<in> set (nodes nl). mark n = NMARK_CREATED \<longrightarrow> compression n \<noteq> Some a" for a
      using update_nodes_settings [OF l that] k1 unfolding w' by simp
    ultimately show ?thesis using fr by simp
  qed
  then show "length (nodes nl') = length (nodes nl)"
    and "\<forall>i < length (nodes nl). mark (nodes nl ! i) \<noteq> NMARK_CREATED \<longrightarrow>
         nodes nl' ! i = nodes nl ! i"
    and "bytes w' = bytes w" and "hsizes w' = hsizes w" and "descrs w' = descrs w"
    and "\<forall>a. carg \<noteq> Some a \<and>
           (\<forall>n \<in> set (nodes nl). mark n = NMARK_CREATED \<longrightarrow> compression n \<noteq> Some a) \<longrightarrow>
           comprs w' a = comprs w a"
    by (simp_all add: same_buffers_def)
qed

theorem updateHL_NodeList_only_created_witness:
  "mark ((newHL_Group ''/g'')\<lparr>mark := NMARK_ORIGINAL\<rparr>) \<noteq> NMARK_CREATED \<and>
   update_nodes (accepting_env 1) 1 (- 1) None None []
       ((newHL_Group ''/g'')\<lparr>mark := NMARK_ORIGINAL\<rparr> # [newHL_Group ''/g/h'']) empty_world
     = update_nodes (accepting_env 1) 1 (- 1) None None
         ([] @ [(newHL_Group ''/g'')\<lparr>mark := NMARK_ORIGINAL\<rparr>]) [newHL_Group ''/g/h'']
         empty_world \<and>
   0 < length (nodes old_and_new) \<and>
   mark (nodes old_and_new ! 0) \<noteq> NMARK_CREATED \<and>
   nodes (fst (snd (updateHL_NodeList (accepting_env 1) old_and_new None empty_world))) ! 0
     = nodes old_and_new ! 0 \<and>
   bytes (snd (snd (updateHL_NodeList (accepting_env 1) old_and_new None empty_world)))
     = bytes empty_world \<and>
   comprs (snd (snd (updateHL_NodeList (accepting_env 1) old_and_new None empty_world))) 0
     = comprs empty_world 0 \<and>
   fst (updateHL_NodeList (accepting_env 1) old_and_new None empty_world) = 1 \<and>
   calls (snd (snd (updateHL_NodeList (accepting_env 1) old_and_new None empty_world))) =
     [OpenHlHdfFile ''f.h5'' ''rw'', H5Gopen 1 ''/g'', H5Gcreate 2 ''h'', H5Gclose 2,
      H5Gclose 3, H5Fclose 1]"
proof -
  have m: "mark ((newHL_Group ''/g'')\<lparr>mark := NMARK_ORIGINAL\<rparr>) \<noteq> NMARK_CREATED"
    by code_simp
  have l: "0 < length (nodes old_and_new)" by code_simp
  have m0: "mark (nodes old_and_new ! 0) \<noteq> NMARK_CREATED" by code_simp
  have r: "updateHL_NodeList (accepting_env 1) old_and_new None empty_world
             = (fst (updateHL_NodeList (accepting_env 1) old_and_new None empty_world),
                fst (snd (updateHL_NodeList (accepting_env 1) old_and_new None empty_world)),
                snd (snd (updateHL_NodeList (accepting_env 1) old_and_new None empty_world)))"
    by simp
  note t = updateHL_NodeList_only_created
             [of "(newHL_Group ''/g'')\<lparr>mark := NMARK_ORIGINAL\<rparr>" "accepting_env 1" 1 "- 1" None
                 None "[]" "[newHL_Group ''/g/h'']" empty_world old_and_new
                 "fst (updateHL_NodeList (accepting_env 1) old_and_new None empty_world)"
                 "fst (snd (updateHL_NodeList (accepting_env 1) old_and_new None empty_world))"
                 "snd (snd (updateHL_NodeList (accepting_env 1) old_and_new None empty_world))"]
  have skip: "update_nodes (accepting_env 1) 1 (- 1) None None []
       ((newHL_Group ''/g'')\<lparr>mark := NMARK_ORIGINAL\<rparr> # [newHL_Group ''/g/h'']) empty_world
     = update_nodes (accepting_env 1) 1 (- 1) None None
         ([] @ [(newHL_Group ''/g'')\<lparr>mark := NMARK_ORIGINAL\<rparr>]) [newHL_Group ''/g/h'']
         empty_world"
    using t m by blast
  have same: "nodes (fst (snd (updateHL_NodeList (accepting_env 1) old_and_new None empty_world))) ! 0
     = nodes old_and_new ! 0"
    using t r l m0 by blast
  have buf: "bytes (snd (snd (updateHL_NodeList (accepting_env 1) old_and_new None empty_world)))
     = bytes empty_world"
    using t r by blast
  have nc: "\<forall>n \<in> set (nodes old_and_new). mark n = NMARK_CREATED \<longrightarrow> compression n \<noteq> Some 0"
    by code_simp
  have kept: "comprs (snd (snd (updateHL_NodeList (accepting_env 1) old_and_new None empty_world))) 0
     = comprs empty_world 0"
    using t r nc by blast
  have ok: "fst (updateHL_NodeList (accepting_env 1) old_and_new None empty_world) = 1"
    by code_simp
  have tr: "calls (snd (snd (updateHL_NodeList (accepting_env 1) old_and_new None empty_world))) =
     [OpenHlHdfFile ''f.h5'' ''rw'', H5Gopen 1 ''/g'', H5Gcreate 2 ''h'', H5Gclose 2,
      H5Gclose 3, H5Fclose 1]"
    by code_simp
  show ?thesis using m skip l m0 same buf kept ok tr by blast
qed

subsection \<open>Copying a node\<close>

lemma free_hsizes_simps [simp]:
  "free_hsizes None w = w"
  "free_hsizes (Some a) w = w\<lparr>hsizes := (hsizes w)(a := None)\<rparr>"
  by (simp_all add: free_hsizes_def)

lemma setHL_NodeDimensions_absent:
  "setHL_NodeDimensions node nd None w
     = Inr (1, node\<lparr>dims := None, ndims := nd\<rparr>, free_hsizes (dims node) w)"
  by (simp add: setHL_NodeDimensions_def)

lemma setHL_NodeDimensions_present:
  assumes "0 < nd" and "hsizes w a = Some ds" and "int (length ds) = nd"
  shows "setHL_NodeDimensions node nd (Some a) w
     = Inr (1, node\<lparr>dims := Some (nxt w), ndims := nd\<rparr>,
            free_hsizes (dims node)
              (w\<lparr>hsizes := (hsizes w)(nxt w \<mapsto> ds), nxt := Suc (nxt w)\<rparr>))"
proof -
  have "nat nd = length ds" using assms(3) by simp
  then show ?thesis
    using assms(1,2)
    by (simp add: setHL_NodeDimensions_def memcpy_hsizes_def malloc_hsizes_def)
qed

lemma read_hsize_buf:
  "read_hsize w p i =
     (case p of None \<Rightarrow> Inl NullDereference
      | Some a \<Rightarrow> (case buf_hsizes w p of None \<Rightarrow> Inl OutOfBounds
                   | Some ds \<Rightarrow> if i < length ds then Inr (ds ! i) else Inl OutOfBounds))"
  by (simp add: read_hsize_def buf_hsizes_def split: option.splits)

lemma mult_dims_buf:
  assumes "buf_hsizes w' p' = buf_hsizes w p" and "p' = None \<longleftrightarrow> p = None"
  shows "mult_dims w' p' is n = mult_dims w p is n"
proof (induction "is" arbitrary: n)
  case Nil
  then show ?case by simp
next
  case (Cons i "is")
  have "read_hsize w' p' i = read_hsize w p i"
    using assms by (cases p; cases p') (simp_all add: read_hsize_buf)
  then show ?case using Cons by (simp split: sum.splits)
qed

lemma points_buf:
  assumes "ndims n' = ndims n" and "buf_hsizes w' (dims n') = buf_hsizes w (dims n)"
    and "dims n' = None \<longleftrightarrow> dims n = None"
  shows "getHL_NodeNumberOfPoints w' n' = getHL_NodeNumberOfPoints w n"
  using assms mult_dims_buf [OF assms(2,3)]
  by (auto simp: getHL_NodeNumberOfPoints_def)

lemma points_total:
  assumes "dims_allocated w node"
  shows "getHL_NodeNumberOfPoints w node = Inr (points_or_zero w node)"
proof (cases "dims node")
  case None
  then show ?thesis by (simp add: getHL_NodeNumberOfPoints_def points_or_zero_def)
next
  case (Some a)
  with assms obtain ds where ds: "hsizes w a = Some ds" "0 < ndims node" "int (length ds) = ndims node"
    by (auto simp: dims_allocated_def split: option.splits)
  then have "nat (ndims node) = length ds" by simp
  moreover have "mult_dims w (Some a) [0 ..< length ds] 1 = Inr (1 * prod_list (drop 0 ds))"
    using ds(1) by (intro mult_dims_upt) simp_all
  ultimately show ?thesis
    using Some ds by (simp add: getHL_NodeNumberOfPoints_def points_or_zero_def)
qed

lemma memcpy_bytes_whole:
  assumes "case p of None \<Rightarrow> n = 0
           | Some a \<Rightarrow> (case bytes w a of None \<Rightarrow> False | Some bs \<Rightarrow> length bs = n)"
  shows "memcpy_bytes w p n = Inr (contents (buf_bytes w p))"
  using assms
  by (auto simp: memcpy_bytes_def contents_def buf_bytes_def split: option.splits)

lemma malloc_memcpy_whole:
  assumes "case p of None \<Rightarrow> n = 0
           | Some a \<Rightarrow> (case bytes w a of None \<Rightarrow> False | Some bs \<Rightarrow> length bs = n)"
  shows "malloc_memcpy p n w
           = Inr (nxt w, w\<lparr>bytes := (bytes w)(nxt w \<mapsto> contents (buf_bytes w p)),
                            nxt := Suc (nxt w)\<rparr>)"
  using memcpy_bytes_whole [OF assms] by (simp add: malloc_memcpy_def malloc_bytes_def)

lemma extends_refl [simp]: "extends w w"
  by (simp add: extends_def)

lemma extends_trans: "extends w w1 \<Longrightarrow> extends w1 w2 \<Longrightarrow> extends w w2"
  by (auto simp: extends_def)

lemma allocator_ok_below:
  assumes "allocator_ok w"
  shows "bytes w a = Some bs \<Longrightarrow> a < nxt w"
    and "hsizes w a = Some ds \<Longrightarrow> a < nxt w"
    and "descrs w a = Some d \<Longrightarrow> a < nxt w"
  using assms by (simp_all add: allocator_ok_def)

text \<open>The first block: the copy of the dimensions.\<close>

lemma copy_dimensions_spec:
  assumes ok: "allocator_ok w" and al: "dims_allocated w node"
  shows "\<exists>dp w1.
      copy_dimensions node w
        = Inr (1, (newHL_Node (name node))\<lparr>type := type node, dSize := dSize node,
                     rdSize := rdSize node, ndims := ndims node, dims := dp\<rparr>, w1) \<and>
      (dp = None \<longleftrightarrow> dims node = None) \<and>
      buf_hsizes w1 dp = buf_hsizes w (dims node) \<and>
      (\<forall>a. dp = Some a \<longrightarrow> nxt w \<le> a) \<and>
      extends w w1 \<and> allocator_ok w1 \<and>
      bytes w1 = bytes w \<and> descrs w1 = descrs w \<and> est w1 = est w \<and> calls w1 = calls w"
proof (cases "dims node")
  case None
  then show ?thesis
    using ok by (simp add: copy_dimensions_def setHL_NodeDimensions_absent newHL_Node_def
                   buf_hsizes_def)
next
  case (Some a)
  with al obtain ds where ds: "hsizes w a = Some ds" "0 < ndims node" "int (length ds) = ndims node"
    by (auto simp: dims_allocated_def split: option.splits)
  have lt: "a < nxt w" using allocator_ok_below(2) [OF ok ds(1)] .
  define w1 where "w1 = w\<lparr>hsizes := (hsizes w)(nxt w \<mapsto> ds), nxt := Suc (nxt w)\<rparr>"
  define w2 where
    "w2 = w\<lparr>hsizes := (hsizes w)(nxt w := None, Suc (nxt w) \<mapsto> ds), nxt := Suc (Suc (nxt w))\<rparr>"
  have s1: "setHL_NodeDimensions (newHL_Node (name node)) (ndims node) (Some a) w
              = Inr (1, (newHL_Node (name node))\<lparr>dims := Some (nxt w), ndims := ndims node\<rparr>, w1)"
    using setHL_NodeDimensions_present [OF ds(2) ds(1) ds(3), of "newHL_Node (name node)"]
    by (simp add: newHL_Node_def w1_def)
  have h1: "hsizes w1 a = Some ds"
    using ds(1) lt by (simp add: w1_def)
  have s2: "setHL_NodeDimensions
              ((newHL_Node (name node))\<lparr>dims := Some (nxt w), ndims := ndims node,
                 type := type node, dSize := dSize node, rdSize := rdSize node\<rparr>)
              (ndims node) (Some a) w1
            = Inr (1, (newHL_Node (name node))\<lparr>type := type node, dSize := dSize node,
                         rdSize := rdSize node, ndims := ndims node,
                         dims := Some (Suc (nxt w))\<rparr>, w2)"
    using setHL_NodeDimensions_present [OF ds(2) h1 ds(3)]
    by (simp add: newHL_Node_def w1_def w2_def fun_upd_twist)
  have ext: "extends w w2"
    by (simp add: extends_def w2_def)
  have ok2: "allocator_ok w2"
    using ok by (auto simp: allocator_ok_def w2_def less_Suc_eq)
  have buf: "buf_hsizes w2 (Some (Suc (nxt w))) = buf_hsizes w (dims node)"
    using Some ds(1) by (simp add: buf_hsizes_def w2_def)
  have b2: "bytes w2 = bytes w" "descrs w2 = descrs w" "est w2 = est w" "calls w2 = calls w"
    by (simp_all add: w2_def)
  show ?thesis
    using Some s1 s2 ext ok2 buf b2
    by (intro exI [of _ "Some (Suc (nxt w))"] exI [of _ w2]) (simp add: copy_dimensions_def)
qed


text \<open>The second block: the copies of the data and of the raw data.\<close>

lemma copy_buffers_spec:
  assumes ok: "allocator_ok w"
    and pts: "getHL_NodeNumberOfPoints w retv = Inr P"
    and dsz: "case data node of None \<Rightarrow> unat (P * dSize retv) = 0
              | Some a \<Rightarrow> (case bytes w a of None \<Rightarrow> False
                            | Some bs \<Rightarrow> length bs = unat (P * dSize retv))"
    and rsz: "case rawdata node of None \<Rightarrow> True
              | Some a \<Rightarrow> (case bytes w a of None \<Rightarrow> False
                            | Some bs \<Rightarrow> length bs = unat (P * rdSize retv))"
  shows "\<exists>d rp w2.
      copy_buffers node retv w
        = Inr (retv\<lparr>data := Some d, rawdata := rp,
                     rdSize := (if rawdata node = None then 0 else rdSize retv)\<rparr>, w2) \<and>
      nxt w \<le> d \<and> bytes w2 d = Some (contents (buf_bytes w (data node))) \<and>
      (rp = None \<longleftrightarrow> rawdata node = None) \<and>
      buf_bytes w2 rp = buf_bytes w (rawdata node) \<and>
      (\<forall>a. rp = Some a \<longrightarrow> nxt w \<le> a \<and> a \<noteq> d) \<and>
      extends w w2 \<and> allocator_ok w2 \<and>
      hsizes w2 = hsizes w \<and> descrs w2 = descrs w \<and> est w2 = est w \<and> calls w2 = calls w"
proof -
  define D where "D = contents (buf_bytes w (data node))"
  define wA where "wA = w\<lparr>bytes := (bytes w)(nxt w \<mapsto> D), nxt := Suc (nxt w)\<rparr>"
  have m1: "malloc_memcpy (data node) (unat (P * dSize retv)) w = Inr (nxt w, wA)"
    using malloc_memcpy_whole [OF dsz] by (simp add: wA_def D_def)
  have extA: "extends w wA" by (simp add: extends_def wA_def)
  have okA: "allocator_ok wA"
    using ok by (auto simp: allocator_ok_def wA_def less_Suc_eq)
  show ?thesis
  proof (cases "rawdata node")
    case None
    have "copy_buffers node retv w
            = Inr (retv\<lparr>data := Some (nxt w), rawdata := None, rdSize := 0\<rparr>, wA)"
      using None pts m1 by (simp add: copy_buffers_def)
    then show ?thesis
      using None extA okA
      by (intro exI [of _ "nxt w"] exI [of _ None] exI [of _ wA])
         (simp add: wA_def D_def buf_bytes_def)
  next
    case (Some r)
    with rsz obtain bs where bs: "bytes w r = Some bs" "length bs = unat (P * rdSize retv)"
      by (auto split: option.splits)
    have lt: "r < nxt w" using allocator_ok_below(1) [OF ok bs(1)] .
    have bA: "bytes wA r = Some bs" using bs(1) lt by (simp add: wA_def)
    define wB where "wB = wA\<lparr>bytes := (bytes wA)(nxt wA \<mapsto> bs), nxt := Suc (nxt wA)\<rparr>"
    have "case Some r of None \<Rightarrow> unat (P * rdSize retv) = 0
          | Some a \<Rightarrow> (case bytes wA a of None \<Rightarrow> False
                        | Some bs \<Rightarrow> length bs = unat (P * rdSize retv))"
      using bA bs(2) by simp
    from malloc_memcpy_whole [OF this]
    have m2: "malloc_memcpy (Some r) (unat (P * rdSize retv)) wA = Inr (nxt wA, wB)"
      using bA by (simp add: wB_def buf_bytes_def contents_def)
    have res: "copy_buffers node retv w
            = Inr (retv\<lparr>data := Some (nxt w), rawdata := Some (Suc (nxt w)),
                         rdSize := rdSize retv\<rparr>, wB)"
      using Some pts m1 m2 by (simp add: copy_buffers_def wA_def)
    have extB: "extends w wB"
      by (simp add: extends_def wB_def wA_def)
    have okB: "allocator_ok wB"
      using ok by (auto simp: allocator_ok_def wB_def wA_def less_Suc_eq)
    show ?thesis
      using Some res extB okB bs(1) lt
      by (intro exI [of _ "nxt w"] exI [of _ "Some (Suc (nxt w))"] exI [of _ wB])
         (simp add: wB_def wA_def D_def buf_bytes_def)
  qed
qed

text \<open>The third block: the handles and the compound descriptor.\<close>

lemma copy_handles_spec:
  assumes ok: "allocator_ok w"
    and live: "case compoundDescription node of None \<Rightarrow> True | Some a \<Rightarrow> descrs w a \<noteq> None"
  shows "\<exists>cd w3.
      copy_handles env node retv w
        = Inr (retv\<lparr>format := format node,
                     typeId := (if 0 \<le> typeId node
                                then fst (engine env (est w) (H5Tcopy (typeId node)))
                                else typeId retv),
                     dataType := dataType node, hdfId := - 1, mark := mark node,
                     compoundDescription := cd\<rparr>, w3) \<and>
      (cd = None \<longleftrightarrow> compoundDescription node = None) \<and>
      buf_descr w3 cd = buf_descr w (compoundDescription node) \<and>
      (\<forall>a. cd = Some a \<longrightarrow> nxt w \<le> a) \<and>
      extends w w3 \<and> allocator_ok w3 \<and> bytes w3 = bytes w \<and> hsizes w3 = hsizes w \<and>
      calls w3 = calls w @ (if 0 \<le> typeId node then [H5Tcopy (typeId node)] else [])"
proof -
  define t where "t = (if 0 \<le> typeId node
                       then fst (engine env (est w) (H5Tcopy (typeId node))) else typeId retv)"
  define w1 where "w1 = (if 0 \<le> typeId node then snd (h5 env (H5Tcopy (typeId node)) w) else w)"
  have first: "(if typeId node \<ge> 0 then h5 env (H5Tcopy (typeId node)) w else (typeId retv, w))
                 = (t, w1)"
    by (simp add: t_def w1_def h5_def case_prod_beta)
  have w1: "bytes w1 = bytes w" "hsizes w1 = hsizes w" "descrs w1 = descrs w" "nxt w1 = nxt w"
       "calls w1 = calls w @ (if 0 \<le> typeId node then [H5Tcopy (typeId node)] else [])"
    by (simp_all add: w1_def h5_def case_prod_beta)
  have ext1: "extends w w1" using w1 by (simp add: extends_def)
  have ok1: "allocator_ok w1" using ok w1 by (simp add: allocator_ok_def)
  show ?thesis
  proof (cases "compoundDescription node")
    case None
    then show ?thesis
      using first w1 ext1 ok1
      by (intro exI [of _ None] exI [of _ w1])
         (simp add: copy_handles_def copyHL_CompoundTypeDescription_def t_def buf_descr_def)
  next
    case (Some a)
    with live obtain d where d: "descrs w a = Some d" by auto
    define w2 where "w2 = w1\<lparr>descrs := (descrs w1)(nxt w1 \<mapsto> d), nxt := Suc (nxt w1)\<rparr>"
    have cp: "copyHL_CompoundTypeDescription (Some a) w1 = Inr (Some (nxt w), w2)"
      using d w1 by (simp add: copyHL_CompoundTypeDescription_def malloc_descr_def w2_def)
    have ext2: "extends w w2" using w1 by (simp add: extends_def w2_def)
    have ok2: "allocator_ok w2"
      using ok w1 by (auto simp: allocator_ok_def w2_def less_Suc_eq)
    show ?thesis
      using Some first cp w1 ext2 ok2 d
      by (intro exI [of _ "Some (nxt w)"] exI [of _ w2])
         (simp add: copy_handles_def t_def buf_descr_def w2_def)
  qed
qed

lemma extends_nxt: "extends w w' \<Longrightarrow> nxt w \<le> nxt w'"
  by (simp add: extends_def)

lemma extends_below:
  assumes "extends w w'" and "a < nxt w"
  shows "bytes w' a = bytes w a" and "hsizes w' a = hsizes w a" and "descrs w' a = descrs w a"
  using assms by (simp_all add: extends_def)

lemma buf_same:
  "bytes w' = bytes w \<Longrightarrow> buf_bytes w' p = buf_bytes w p"
  "hsizes w' = hsizes w \<Longrightarrow> buf_hsizes w' q = buf_hsizes w q"
  "descrs w' = descrs w \<Longrightarrow> buf_descr w' r = buf_descr w r"
  by (simp_all add: buf_bytes_def buf_hsizes_def buf_descr_def split: option.splits)

lemma buf_bytes_kept:
  assumes ok: "allocator_ok w" and ext: "extends w w'" and fresh: "nxt w \<le> a"
    and live: "case p of None \<Rightarrow> True | Some q \<Rightarrow> bytes w q \<noteq> None"
  shows "buf_bytes (store_bytes a bs w') p = buf_bytes w p"
proof (cases p)
  case None
  then show ?thesis by (simp add: buf_bytes_def)
next
  case (Some q)
  with live obtain old where old: "bytes w q = Some old" by auto
  have lt: "q < nxt w" using allocator_ok_below(1) [OF ok old] .
  then have "q \<noteq> a" using fresh by simp
  then show ?thesis
    using Some extends_below(1) [OF ext lt] by (simp add: buf_bytes_def store_bytes_def)
qed

lemma buf_hsizes_kept:
  assumes ok: "allocator_ok w" and ext: "extends w w'" and fresh: "nxt w \<le> a"
    and live: "case p of None \<Rightarrow> True | Some q \<Rightarrow> hsizes w q \<noteq> None"
  shows "buf_hsizes (store_hsizes a ds w') p = buf_hsizes w p"
proof (cases p)
  case None
  then show ?thesis by (simp add: buf_hsizes_def)
next
  case (Some q)
  with live obtain old where old: "hsizes w q = Some old" by auto
  have lt: "q < nxt w" using allocator_ok_below(2) [OF ok old] .
  then have "q \<noteq> a" using fresh by simp
  then show ?thesis
    using Some extends_below(2) [OF ext lt] by (simp add: buf_hsizes_def store_hsizes_def)
qed

text \<open>
  Claim C8 (as amended). For every node whose buffers have the sizes its fields announce,
  in a memory whose blocks in use lie below the allocator's next address, and with every
  allocation succeeding (as it does here), \<^verbatim>\<open>copyHL_Node\<close> returns a node with the name,
  type, dimension count, format, element size, data type and mark of the original (the
  raw element size too when there is raw data, 0 otherwise); with storage handle -1; with
  no compression settings, whatever the original has, so that it shares none with the
  original; with the type handle that the engine's \<^verbatim>\<open>H5Tcopy\<close> returned when the original
  has one, the only call made; with buffers for the dimensions, data, raw data and
  compound descriptor that hold what the original's hold (an absent data buffer is copied
  as an empty one) at addresses that were not in use; every block of the memory before
  the call is as it was; and storing anything in the copy's data, raw data or dimensions
  leaves the original's as they were.
\<close>

theorem copyHL_Node_duplicate:
  assumes ok: "allocator_ok w" and sized: "buffers_sized w node"
  shows "\<exists>c w'.
     copyHL_Node env (Some node) w = Inr (Some c, w') \<and>
     name c = name node \<and> type c = type node \<and> ndims c = ndims node \<and>
     format c = format node \<and> dSize c = dSize node \<and>
     rdSize c = (if rawdata node = None then 0 else rdSize node) \<and>
     dataType c = dataType node \<and> mark c = mark node \<and>
     hdfId c = - 1 \<and> compression c = None \<and>
     typeId c = (if 0 \<le> typeId node then fst (engine env (est w) (H5Tcopy (typeId node)))
                 else - 1) \<and>
     calls w' = calls w @ (if 0 \<le> typeId node then [H5Tcopy (typeId node)] else []) \<and>
     (dims c = None \<longleftrightarrow> dims node = None) \<and>
     buf_hsizes w' (dims c) = buf_hsizes w (dims node) \<and>
     data c \<noteq> None \<and>
     contents (buf_bytes w' (data c)) = contents (buf_bytes w (data node)) \<and>
     (rawdata c = None \<longleftrightarrow> rawdata node = None) \<and>
     buf_bytes w' (rawdata c) = buf_bytes w (rawdata node) \<and>
     (compoundDescription c = None \<longleftrightarrow> compoundDescription node = None) \<and>
     buf_descr w' (compoundDescription c) = buf_descr w (compoundDescription node) \<and>
     (\<forall>a. dims c = Some a \<or> data c = Some a \<or> rawdata c = Some a \<or>
          compoundDescription c = Some a \<longrightarrow> nxt w \<le> a) \<and>
     extends w w' \<and>
     (\<forall>a bs. data c = Some a \<or> rawdata c = Some a \<longrightarrow>
        buf_bytes (store_bytes a bs w') (data node) = buf_bytes w (data node) \<and>
        buf_bytes (store_bytes a bs w') (rawdata node) = buf_bytes w (rawdata node)) \<and>
     (\<forall>a ds. dims c = Some a \<longrightarrow>
        buf_hsizes (store_hsizes a ds w') (dims node) = buf_hsizes w (dims node))"
proof -
  have al: "dims_allocated w node"
    using sized by (simp add: buffers_sized_def)
  have dsz: "case data node of None \<Rightarrow> unat (points_or_zero w node * dSize node) = 0
             | Some a \<Rightarrow> (case bytes w a of None \<Rightarrow> False
                           | Some bs \<Rightarrow> length bs = unat (points_or_zero w node * dSize node))"
    and rsz: "case rawdata node of None \<Rightarrow> True
              | Some a \<Rightarrow> (case bytes w a of None \<Rightarrow> False
                            | Some bs \<Rightarrow> length bs = unat (points_or_zero w node * rdSize node))"
    and clive: "case compoundDescription node of None \<Rightarrow> True | Some a \<Rightarrow> descrs w a \<noteq> None"
    using sized by (simp_all add: buffers_sized_def)
  have dlive: "case data node of None \<Rightarrow> True | Some q \<Rightarrow> bytes w q \<noteq> None"
    using dsz by (auto split: option.splits)
  have rlive: "case rawdata node of None \<Rightarrow> True | Some q \<Rightarrow> bytes w q \<noteq> None"
    using rsz by (auto split: option.splits)
  have hlive: "case dims node of None \<Rightarrow> True | Some q \<Rightarrow> hsizes w q \<noteq> None"
    using al by (auto simp: dims_allocated_def split: option.splits)
  \<comment> \<open>the dimensions\<close>
  define r0 where "r0 = (newHL_Node (name node))\<lparr>type := type node, dSize := dSize node,
                     rdSize := rdSize node, ndims := ndims node\<rparr>"
  from copy_dimensions_spec [OF ok al, folded r0_def] obtain dp w1 where
    p1: "copy_dimensions node w = Inr (1, r0\<lparr>dims := dp\<rparr>, w1)"
    and dp: "dp = None \<longleftrightarrow> dims node = None" "buf_hsizes w1 dp = buf_hsizes w (dims node)"
            "\<forall>a. dp = Some a \<longrightarrow> nxt w \<le> a"
    and e1: "extends w w1" and ok1: "allocator_ok w1"
    and k1: "bytes w1 = bytes w" "descrs w1 = descrs w" "est w1 = est w" "calls w1 = calls w"
    by (elim exE conjE) (rule that, assumption+)
  define r1 where "r1 = r0\<lparr>dims := dp\<rparr>"
  have pts: "getHL_NodeNumberOfPoints w1 r1 = Inr (points_or_zero w node)"
    using points_buf [of r1 node w1 w] dp points_total [OF al]
    by (simp add: r1_def r0_def)
  \<comment> \<open>the buffers\<close>
  have dsz1: "case data node of None \<Rightarrow> unat (points_or_zero w node * dSize r1) = 0
             | Some a \<Rightarrow> (case bytes w1 a of None \<Rightarrow> False
                           | Some bs \<Rightarrow> length bs = unat (points_or_zero w node * dSize r1))"
    using dsz k1 by (auto simp: r1_def r0_def split: option.splits)
  have rsz1: "case rawdata node of None \<Rightarrow> True
              | Some a \<Rightarrow> (case bytes w1 a of None \<Rightarrow> False
                            | Some bs \<Rightarrow> length bs = unat (points_or_zero w node * rdSize r1))"
    using rsz k1 by (auto simp: r1_def r0_def split: option.splits)
  from copy_buffers_spec [OF ok1 pts dsz1 rsz1] obtain d rp w2 where
    p2: "copy_buffers node r1 w1
           = Inr (r1\<lparr>data := Some d, rawdata := rp,
                       rdSize := (if rawdata node = None then 0 else rdSize r1)\<rparr>, w2)"
    and d: "nxt w1 \<le> d" "bytes w2 d = Some (contents (buf_bytes w1 (data node)))"
    and rp: "rp = None \<longleftrightarrow> rawdata node = None" "buf_bytes w2 rp = buf_bytes w1 (rawdata node)"
            "\<forall>a. rp = Some a \<longrightarrow> nxt w1 \<le> a \<and> a \<noteq> d"
    and e2: "extends w1 w2" and ok2: "allocator_ok w2"
    and k2: "hsizes w2 = hsizes w1" "descrs w2 = descrs w1" "est w2 = est w1" "calls w2 = calls w1"
    by (elim exE conjE) (rule that, assumption+)
  define r2 where "r2 = r1\<lparr>data := Some d, rawdata := rp,
                       rdSize := (if rawdata node = None then 0 else rdSize r1)\<rparr>"
  \<comment> \<open>the handles\<close>
  have clive2: "case compoundDescription node of None \<Rightarrow> True | Some a \<Rightarrow> descrs w2 a \<noteq> None"
    using clive k1 k2 by (auto split: option.splits)
  from copy_handles_spec [OF ok2 clive2, of env r2] obtain cd w3 where
    p3: "copy_handles env node r2 w2
        = Inr (r2\<lparr>format := format node,
                     typeId := (if 0 \<le> typeId node
                                then fst (engine env (est w2) (H5Tcopy (typeId node)))
                                else typeId r2),
                     dataType := dataType node, hdfId := - 1, mark := mark node,
                     compoundDescription := cd\<rparr>, w3)"
    and cd: "cd = None \<longleftrightarrow> compoundDescription node = None"
            "buf_descr w3 cd = buf_descr w2 (compoundDescription node)"
            "\<forall>a. cd = Some a \<longrightarrow> nxt w2 \<le> a"
    and e3: "extends w2 w3" and ok3: "allocator_ok w3"
    and k3: "bytes w3 = bytes w2" "hsizes w3 = hsizes w2"
            "calls w3 = calls w2 @ (if 0 \<le> typeId node then [H5Tcopy (typeId node)] else [])"
    by (elim exE conjE) (rule that, assumption+)
  define c where "c = r2\<lparr>format := format node,
                     typeId := (if 0 \<le> typeId node
                                then fst (engine env (est w2) (H5Tcopy (typeId node)))
                                else typeId r2),
                     dataType := dataType node, hdfId := - 1, mark := mark node,
                     compoundDescription := cd\<rparr>"
  have res: "copyHL_Node env (Some node) w = Inr (Some c, w3)"
    using p1 p2 p3 by (simp add: copyHL_Node_def r1_def r2_def c_def)
  have ext: "extends w w3"
    using e1 e2 e3 extends_trans by blast
  have n1: "nxt w \<le> nxt w1" and n2: "nxt w1 \<le> nxt w2"
    using e1 e2 by (simp_all add: extends_nxt)
  have fields: "name c = name node" "type c = type node" "ndims c = ndims node"
     "format c = format node" "dSize c = dSize node"
     "rdSize c = (if rawdata node = None then 0 else rdSize node)"
     "dataType c = dataType node" "mark c = mark node" "hdfId c = - 1" "compression c = None"
     "typeId c = (if 0 \<le> typeId node then fst (engine env (est w) (H5Tcopy (typeId node)))
                 else - 1)"
     "dims c = dp" "data c = Some d" "rawdata c = rp" "compoundDescription c = cd"
    using k1 k2 by (simp_all add: c_def r2_def r1_def r0_def newHL_Node_def)
  have cl: "calls w3 = calls w @ (if 0 \<le> typeId node then [H5Tcopy (typeId node)] else [])"
    using k1 k2 k3 by simp
  have bd: "buf_hsizes w3 dp = buf_hsizes w (dims node)"
    using dp(2) k2 k3 buf_same(2) [of w3 w1 dp] by simp
  have bb: "contents (buf_bytes w3 (Some d)) = contents (buf_bytes w (data node))"
    using d(2) k1 k3 buf_same(1) [of w1 w "data node"] by (simp add: buf_bytes_def contents_def)
  have br: "buf_bytes w3 rp = buf_bytes w (rawdata node)"
    using rp(2) k1 k3 buf_same(1) [of w3 w2 rp] buf_same(1) [of w1 w "rawdata node"] by simp
  have bc: "buf_descr w3 cd = buf_descr w (compoundDescription node)"
    using cd(2) k1 k2 buf_same(3) [of w2 w "compoundDescription node"] by simp
  have fresh: "nxt w \<le> a"
    if "dp = Some a \<or> Some d = Some a \<or> rp = Some a \<or> cd = Some a" for a
    using that dp(3) d(1) rp(3) cd(3) n1 n2 by (metis le_trans option.inject)
  have ind: "buf_bytes (store_bytes a bs w3) (data node) = buf_bytes w (data node) \<and>
             buf_bytes (store_bytes a bs w3) (rawdata node) = buf_bytes w (rawdata node)"
    if "Some d = Some a \<or> rp = Some a" for a bs
    using buf_bytes_kept [OF ok ext fresh [of a] dlive] buf_bytes_kept [OF ok ext fresh [of a] rlive]
          that by blast
  have indh: "buf_hsizes (store_hsizes a ds w3) (dims node) = buf_hsizes w (dims node)"
    if "dp = Some a" for a ds
    using buf_hsizes_kept [OF ok ext fresh [of a] hlive] that by blast
  show ?thesis
    apply (intro exI [of _ c] exI [of _ w3])
    using res fields cl dp(1) bd bb rp(1) br cd(1) bc fresh ext ind indh
    apply simp
    done
qed

theorem copyHL_Node_duplicate_witness:
  "allocator_ok square_world \<and> buffers_sized square_world square_node \<and>
   map_option hdfId (copy_of (copyHL_Node (accepting_env 1) (Some square_node) square_world))
     = Some (- 1) \<and>
   hdfId square_node = 9 \<and>
   compression square_node = Some 0 \<and>
   map_option compression
     (copy_of (copyHL_Node (accepting_env 1) (Some square_node) square_world)) = Some None \<and>
   map_option dims (copy_of (copyHL_Node (accepting_env 1) (Some square_node) square_world))
     = Some (Some 5) \<and>
   map_option data (copy_of (copyHL_Node (accepting_env 1) (Some square_node) square_world))
     = Some (Some 6) \<and>
   map_option rawdata (copy_of (copyHL_Node (accepting_env 1) (Some square_node) square_world))
     = Some (Some 7) \<and>
   map_option typeId (copy_of (copyHL_Node (accepting_env 1) (Some square_node) square_world))
     = Some 1 \<and>
   copy_data (copyHL_Node (accepting_env 1) (Some square_node) square_world)
     = Some [1, 2, 3, 4] \<and>
   data_after_store 6 [0, 0, 0, 0] square_node
     (copyHL_Node (accepting_env 1) (Some square_node) square_world) = Some [1, 2, 3, 4]"
proof -
  have h1: "allocator_ok square_world"
    by (auto simp: allocator_ok_def square_world_def empty_world_def split: if_splits)
  have h2: "buffers_sized square_world square_node"
    by code_simp
  from copyHL_Node_duplicate [OF h1 h2, of "accepting_env 1"]
  obtain c w' where
    r: "copyHL_Node (accepting_env 1) (Some square_node) square_world = Inr (Some c, w')"
    and h: "hdfId c = - 1" and k: "compression c = None"
    by (elim exE conjE) (rule that, assumption+)
  have c1: "map_option hdfId
              (copy_of (copyHL_Node (accepting_env 1) (Some square_node) square_world))
            = Some (- 1)"
    using r h by (simp add: copy_of_def)
  have c2: "hdfId square_node = 9" by code_simp
  have c9: "compression square_node = Some 0" by code_simp
  have c10: "map_option compression
              (copy_of (copyHL_Node (accepting_env 1) (Some square_node) square_world))
            = Some None"
    using r k by (simp add: copy_of_def)
  have c3: "map_option dims
              (copy_of (copyHL_Node (accepting_env 1) (Some square_node) square_world))
            = Some (Some 5)" by code_simp
  have c4: "map_option data
              (copy_of (copyHL_Node (accepting_env 1) (Some square_node) square_world))
            = Some (Some 6)" by code_simp
  have c5: "map_option rawdata
              (copy_of (copyHL_Node (accepting_env 1) (Some square_node) square_world))
            = Some (Some 7)" by code_simp
  have c6: "map_option typeId
              (copy_of (copyHL_Node (accepting_env 1) (Some square_node) square_world))
            = Some 1" by code_simp
  have c7: "copy_data (copyHL_Node (accepting_env 1) (Some square_node) square_world)
            = Some [1, 2, 3, 4]" by code_simp
  have c8: "data_after_store 6 [0, 0, 0, 0] square_node
     (copyHL_Node (accepting_env 1) (Some square_node) square_world) = Some [1, 2, 3, 4]"
    by code_simp
  show ?thesis using h1 h2 c1 c2 c3 c4 c5 c6 c7 c8 c9 c10 by blast
qed

text \<open>
  Claim C8 as stated fails for some nodes. A node of one dimension without a dimensions
  array has 0 points, so the copy of its four data bytes is empty: the contents are not
  the same. And the copy of a dataset node with compression settings has none: it is not
  equal in value to the original.
\<close>

theorem copyHL_Node_not_equal:
  "ndims lopsided_node = 1 \<and> dims lopsided_node = None \<and>
   getHL_NodeNumberOfPoints lopsided_world lopsided_node = Inr 0 \<and>
   buf_bytes lopsided_world (data lopsided_node) = Some [1, 2, 3, 4] \<and>
   copy_data (copyHL_Node (accepting_env 1) (Some lopsided_node) lopsided_world) = Some [] \<and>
   compression compressed_node = Some 0 \<and>
   map_option compression
     (copy_of (copyHL_Node (accepting_env 1) (Some compressed_node) compressed_world))
     = Some None"
  by code_simp

end
